theory Spec2Isabelle
  imports Main "HOL-Library.Word" "HOL-Library.Sublist"
begin

section \<open>The gRPC instance of gubernator (grpc.go)\<close>

text \<open>
  The file grpc.go holds the request dispatcher (GetRateLimits, GetPeerRateLimits,
  getRateLimit, UpdatePeerGlobals), the membership callback (updatePeers) and the startup
  sequence (Start, retry).  Everything else it touches is declared in other files of the
  package: the protobuf messages, the PeerClient, the PeerPicker interface, the cache and
  the two bucket algorithms.  The messages are given here with the fields that grpc.go reads
  and writes; the functions of the other files are parameters of the model (the record
  \<open>Deps\<close> below), so a theorem holds for any implementation of them that meets the
  assumptions it states.

  Go's \<open>error\<close> values are represented by their message.  A Go function returning
  \<open>(value, error)\<close> is a function into a sum, \<open>Inl\<close> the error: grpc.go tests
  \<open>err != nil\<close> first at every call and drops the value when the error is set.
  The functions of the other files are taken to return a value whenever they return no error.
\<close>

subsection \<open>Formatting\<close>

type_synonym error = string

text \<open>The verb \<open>'%s'\<close> of fmt.Sprintf: the argument between two apostrophes.\<close>

definition quoted :: "string \<Rightarrow> string" where
  "quoted s = CHR 0x27 # s @ [CHR 0x27]"

text \<open>The verb \<open>%d\<close>: decimal digits, most significant first, with a sign when negative.\<close>

function decimal :: "nat \<Rightarrow> string" where
  "decimal n =
     (if n < 10 then [''0123456789'' ! n]
      else decimal (n div 10) @ [''0123456789'' ! (n mod 10)])"
  by pat_completeness auto
termination
  by (relation "measure (\<lambda>n. n)") auto

declare decimal.simps [simp del]

definition itoa :: "int \<Rightarrow> string" where
  "itoa i = (if i < 0 then CHR ''-'' # decimal (nat (- i)) else decimal (nat i))"

text \<open>errors.Wrap(err, msg): the message, a colon, the cause.\<close>

definition Wrap :: "error \<Rightarrow> string \<Rightarrow> error" where
  "Wrap err msg = msg @ '': '' @ err"

text \<open>strings.Join.\<close>

fun Join :: "string list \<Rightarrow> string \<Rightarrow> string" where
  "Join [] sep = []"
| "Join [x] sep = x"
| "Join (x # y # ys) sep = x @ sep @ Join (y # ys) sep"

subsection \<open>Constants and messages\<close>

definition maxBatchSize :: nat where
  "maxBatchSize = 1000"

definition Healthy :: string where
  "Healthy = ''healthy''"

definition UnHealthy :: string where
  "UnHealthy = ''unhealthy''"

text \<open>
  The enum Algorithm of the generated protobuf code: the two names grpc.go switches on,
  and any other number the wire can carry.
\<close>

datatype Algorithm = Algorithm_TOKEN_BUCKET | Algorithm_LEAKY_BUCKET | Algorithm_other int

text \<open>
  Modelled from the spec: the messages Request and RateLimit are generated code that is
  not in grpc.go.  A request has a namespace, a unique key, an algorithm and
  algorithm-specific parameters (kept abstract as \<open>Params\<close>); a result has decision
  fields (limit, remaining, reset time), an error string and a metadata map.  A nil
  metadata map is the empty map.
\<close>

record 'a Request =
  Namespace :: string
  UniqueKey :: string
  Algorithm :: Algorithm
  Params :: 'a

record RateLimit =
  Limit :: int
  Remaining :: int
  ResetTime :: int
  Error :: string
  Metadata :: "string \<rightharpoonup> string"

text \<open>The composite literal \<open>&RateLimit{Error: e}\<close>: every other field has its zero value.\<close>

definition RateLimit_Error :: "string \<Rightarrow> RateLimit" where
  "RateLimit_Error e =
     \<lparr>Limit = 0, Remaining = 0, ResetTime = 0, Error = e, Metadata = Map.empty\<rparr>"

text \<open>
  The PeerClient of peers.go, with the two fields grpc.go uses.  Its connection is not read
  in grpc.go; calls through it are the parameter \<open>GetPeerRateLimit\<close>.
\<close>

record PeerClient =
  host :: string
  isOwner :: bool

text \<open>HealthCheckResp; PeerCount is an int32.\<close>

record HealthCheckResp =
  Status :: string
  Message :: string
  PeerCount :: "32 word"

text \<open>The errors of google.golang.org/grpc/status: a code and a message.\<close>

datatype Code = InvalidArgument | OutOfRange | Internal

datatype status = Errorf Code string

subsection \<open>State\<close>

text \<open>
  Every call a handler makes out of grpc.go is logged, oldest first: the router lookup
  \<open>Picker.Get\<close>, the local algorithm \<open>getRateLimit\<close> and the remote call
  \<open>GetPeerRateLimit\<close> of the dispatcher, and the steps of the startup sequence.
  The log only records; nothing reads it.
\<close>

datatype 'a call =
    Call_Get string
  | Call_getRateLimit "'a Request"
  | Call_GetPeerRateLimit string "'a Request"
  | Call_Cache_Start
  | Call_Metrics_Start
  | Call_HealthCheck
  | Call_Sleep
  | Call_PeerSyncer_Start string

text \<open>
  The Instance with the fields of its Config that grpc.go uses, and the two things outside
  the process that its calls act on: \<open>net\<close>, whatever is behind the connections (the
  peers, the listener, the membership mechanism), and the log of calls.
\<close>

record ('a, 'c, 'p, 'n) Instance =
  health :: HealthCheckResp
  Picker :: 'p
  Cache :: 'c
  AdvertiseAddress :: string
  net :: 'n
  calls :: "'a call list"

text \<open>
  The functions of the other files.  The picker is a value of type \<open>'p\<close> with the
  methods of the interface PeerPicker; Add returns the picker it has changed.
\<close>

record ('a, 'c, 'p, 'n) Deps =
  tokenBucket :: "'c \<Rightarrow> 'a Request \<Rightarrow> (error + RateLimit) \<times> 'c"
  leakyBucket :: "'c \<Rightarrow> 'a Request \<Rightarrow> (error + RateLimit) \<times> 'c"
  GetPeerRateLimit :: "PeerClient \<Rightarrow> 'a Request \<Rightarrow> 'n \<Rightarrow> (error + RateLimit) \<times> 'n"
  NewPeerClient :: "string \<Rightarrow> 'n \<Rightarrow> (error + PeerClient) \<times> 'n"
  Picker_New :: "'p \<Rightarrow> 'p"
  Picker_Add :: "'p \<Rightarrow> PeerClient \<Rightarrow> 'p"
  Picker_Get :: "'p \<Rightarrow> string \<Rightarrow> error + PeerClient"
  Picker_GetPeer :: "'p \<Rightarrow> string \<Rightarrow> PeerClient option"
  Picker_Size :: "'p \<Rightarrow> int"
  Cache_Start :: "'c \<Rightarrow> error option \<times> 'c"
  Metrics_Start :: "'n \<Rightarrow> error option \<times> 'n"
  HealthCheck_probe :: "'n \<Rightarrow> error option \<times> 'n"
  PeerSyncer_Start :: "string \<Rightarrow> 'n \<Rightarrow> error option \<times> 'n"

definition log_call ::
  "'a call \<Rightarrow> ('a, 'c, 'p, 'n) Instance \<Rightarrow> ('a, 'c, 'p, 'n) Instance" where
  "log_call c s = s\<lparr>calls := calls s @ [c]\<rparr>"

subsection \<open>The dispatcher\<close>

text \<open>
  getRateLimit: under the lock of the cache, the algorithm the request names; any other
  algorithm is an error.
\<close>

definition getRateLimit ::
  "('a, 'c, 'p, 'n) Deps \<Rightarrow> ('a, 'c, 'p, 'n) Instance \<Rightarrow> 'a Request
     \<Rightarrow> (error + RateLimit) \<times> ('a, 'c, 'p, 'n) Instance" where
  "getRateLimit d s0 r =
     (let s = log_call (Call_getRateLimit r) s0 in
      case Algorithm r of
        Algorithm_TOKEN_BUCKET \<Rightarrow>
          (case tokenBucket d (Cache s) r of (res, c) \<Rightarrow> (res, s\<lparr>Cache := c\<rparr>))
      | Algorithm_LEAKY_BUCKET \<Rightarrow>
          (case leakyBucket d (Cache s) r of (res, c) \<Rightarrow> (res, s\<lparr>Cache := c\<rparr>))
      | Algorithm_other n \<Rightarrow>
          (Inl (''invalid rate limit algorithm '' @ quoted (itoa n)), s))"

text \<open>
  One turn of the loop of GetRateLimits: the result appended for one request.  Every
  \<open>goto NextRateLimit\<close> is a branch that returns.
\<close>

definition globalKey :: "'a Request \<Rightarrow> string" where
  "globalKey req = Namespace req @ ''_'' @ UniqueKey req"

definition GetRateLimits_item ::
  "('a, 'c, 'p, 'n) Deps \<Rightarrow> ('a, 'c, 'p, 'n) Instance \<Rightarrow> 'a Request
     \<Rightarrow> RateLimit \<times> ('a, 'c, 'p, 'n) Instance" where
  "GetRateLimits_item d s req =
     (if length (UniqueKey req) = 0 then
        (RateLimit_Error ''field 'unique_key' cannot be empty'', s)
      else if length (Namespace req) = 0 then
        (RateLimit_Error ''field 'namespace' cannot be empty'', s)
      else
        let s1 = log_call (Call_Get (globalKey req)) s in
        case Picker_Get d (Picker s1) (globalKey req) of
          Inl err \<Rightarrow>
            (RateLimit_Error (''while finding peer that owns rate limit ''
               @ quoted (globalKey req) @ '' - '' @ quoted err), s1)
        | Inr peer \<Rightarrow>
            if isOwner peer then
              (case getRateLimit d s1 req of
                 (Inl err, s2) \<Rightarrow>
                   (RateLimit_Error (''while applying rate limit for ''
                      @ quoted (globalKey req) @ '' - '' @ quoted err), s2)
               | (Inr rl, s2) \<Rightarrow> (rl, s2))
            else
              (let s2 = log_call (Call_GetPeerRateLimit (host peer) req) s1 in
               case GetPeerRateLimit d peer req (net s2) of
                 (res, n) \<Rightarrow>
                   (let rl = (case res of
                                Inl err \<Rightarrow>
                                  RateLimit_Error (''while fetching rate limit ''
                                    @ quoted (globalKey req) @ '' from peer - '' @ quoted err)
                              | Inr rl \<Rightarrow> rl)
                    in (rl\<lparr>Metadata := [''owner'' \<mapsto> host peer]\<rparr>, s2\<lparr>net := n\<rparr>))))"

fun GetRateLimits_loop ::
  "('a, 'c, 'p, 'n) Deps \<Rightarrow> ('a, 'c, 'p, 'n) Instance \<Rightarrow> 'a Request list
     \<Rightarrow> RateLimit list \<Rightarrow> RateLimit list \<times> ('a, 'c, 'p, 'n) Instance" where
  "GetRateLimits_loop d s [] resp = (resp, s)"
| "GetRateLimits_loop d s (req # reqs) resp =
     (case GetRateLimits_item d s req of
        (rl, s') \<Rightarrow> GetRateLimits_loop d s' reqs (resp @ [rl]))"

definition GetRateLimits ::
  "('a, 'c, 'p, 'n) Deps \<Rightarrow> ('a, 'c, 'p, 'n) Instance \<Rightarrow> 'a Request list
     \<Rightarrow> (status + RateLimit list) \<times> ('a, 'c, 'p, 'n) Instance" where
  "GetRateLimits d s r =
     (if length r > maxBatchSize then
        (Inl (Errorf OutOfRange (''Requests.RateLimits list too large; max size is ''
           @ quoted (decimal maxBatchSize))), s)
      else case GetRateLimits_loop d s r [] of (resp, s') \<Rightarrow> (Inr resp, s'))"

text \<open>
  UpdatePeerGlobals returns \<open>nil, nil\<close>: a nil pointer to a response and a nil error.
  The two results are options here, \<open>None\<close> for nil.
\<close>

definition UpdatePeerGlobals ::
  "('a, 'c, 'p, 'n) Instance \<Rightarrow> 'req
     \<Rightarrow> ('resp option \<times> error option) \<times> ('a, 'c, 'p, 'n) Instance" where
  "UpdatePeerGlobals s r = ((None, None), s)"

text \<open>GetPeerRateLimits: every request goes to getRateLimit.\<close>

definition GetPeerRateLimits_item ::
  "('a, 'c, 'p, 'n) Deps \<Rightarrow> ('a, 'c, 'p, 'n) Instance \<Rightarrow> 'a Request
     \<Rightarrow> RateLimit \<times> ('a, 'c, 'p, 'n) Instance" where
  "GetPeerRateLimits_item d s req =
     (case getRateLimit d s req of
        (Inl err, s') \<Rightarrow> (RateLimit_Error err, s')
      | (Inr rl, s') \<Rightarrow> (rl, s'))"

fun GetPeerRateLimits_loop ::
  "('a, 'c, 'p, 'n) Deps \<Rightarrow> ('a, 'c, 'p, 'n) Instance \<Rightarrow> 'a Request list
     \<Rightarrow> RateLimit list \<Rightarrow> RateLimit list \<times> ('a, 'c, 'p, 'n) Instance" where
  "GetPeerRateLimits_loop d s [] resp = (resp, s)"
| "GetPeerRateLimits_loop d s (req # reqs) resp =
     (case GetPeerRateLimits_item d s req of
        (rl, s') \<Rightarrow> GetPeerRateLimits_loop d s' reqs (resp @ [rl]))"

definition GetPeerRateLimits ::
  "('a, 'c, 'p, 'n) Deps \<Rightarrow> ('a, 'c, 'p, 'n) Instance \<Rightarrow> 'a Request list
     \<Rightarrow> (status + RateLimit list) \<times> ('a, 'c, 'p, 'n) Instance" where
  "GetPeerRateLimits d s r =
     (if length r > maxBatchSize then
        (Inl (Errorf OutOfRange (quoted ''PeerRequest.rate_limits''
           @ '' list too large; max size is '' @ quoted (decimal maxBatchSize))), s)
      else case GetPeerRateLimits_loop d s r [] of (resp, s') \<Rightarrow> (Inr resp, s'))"

text \<open>HealthCheck returns the health of the instance.\<close>

definition HealthCheck :: "('a, 'c, 'p, 'n) Instance \<Rightarrow> HealthCheckResp" where
  "HealthCheck s = health s"

subsection \<open>The membership callback\<close>

text \<open>The conversion \<open>int32(n)\<close> keeps the low 32 bits.\<close>

definition int32 :: "int \<Rightarrow> 32 word" where
  "int32 n = word_of_int n"

definition connect_failure :: "string \<Rightarrow> string" where
  "connect_failure peer =
     ''failed to connect to peer '' @ quoted peer @ ''; consistent hash is incomplete''"

text \<open>
  The loop of updatePeers over the addresses; \<open>continue\<close> is the branch that goes on
  without adding.  A handle found in the current picker replaces the new one.  The handles
  are values here: setting isOwner on a handle that the current picker holds too is seen
  only through the new picker, which is the one in use after the commit.
\<close>

fun updatePeers_loop ::
  "('a, 'c, 'p, 'n) Deps \<Rightarrow> ('a, 'c, 'p, 'n) Instance \<Rightarrow> string list
     \<Rightarrow> 'p \<Rightarrow> string list \<Rightarrow> 'n \<Rightarrow> 'p \<times> string list \<times> 'n" where
  "updatePeers_loop d s [] picker errs n = (picker, errs, n)"
| "updatePeers_loop d s (peer # peers) picker errs n =
     (case NewPeerClient d peer n of
        (Inl err, n') \<Rightarrow>
          updatePeers_loop d s peers picker (errs @ [connect_failure peer]) n'
      | (Inr peerInfo, n') \<Rightarrow>
          (let peerInfo1 = (case Picker_GetPeer d (Picker s) peer of
                              Some info \<Rightarrow> info
                            | None \<Rightarrow> peerInfo);
               peerInfo2 = (if peer = AdvertiseAddress s
                            then peerInfo1\<lparr>isOwner := True\<rparr> else peerInfo1)
           in updatePeers_loop d s peers (Picker_Add d picker peerInfo2) errs n'))"

definition updatePeers ::
  "('a, 'c, 'p, 'n) Deps \<Rightarrow> ('a, 'c, 'p, 'n) Instance \<Rightarrow> string list
     \<Rightarrow> ('a, 'c, 'p, 'n) Instance" where
  "updatePeers d s conf =
     (case updatePeers_loop d s conf (Picker_New d (Picker s)) [] (net s) of
        (picker, errs, n) \<Rightarrow>
          (let h1 = (health s)\<lparr>Status := Healthy\<rparr>;
               h2 = (if length errs \<noteq> 0
                     then h1\<lparr>Status := UnHealthy, Message := Join errs ''|''\<rparr> else h1);
               h3 = h2\<lparr>PeerCount := int32 (Picker_Size d picker)\<rparr>
           in s\<lparr>Picker := picker, health := h3, net := n\<rparr>))"

subsection \<open>Startup\<close>

text \<open>
  retry: the loop \<open>for i := 0; i < attempts; i++\<close> with the named result \<open>err\<close>,
  nil before the first turn.  The callback acts on the state.
\<close>

function retry_loop ::
  "int \<Rightarrow> int \<Rightarrow> error option \<Rightarrow> ('s \<Rightarrow> error option \<times> 's) \<Rightarrow> ('s \<Rightarrow> 's)
     \<Rightarrow> 's \<Rightarrow> error option \<times> 's" where
  "retry_loop i attempts err callback sleep s =
     (if i < attempts then
        (case callback s of
           (None, s') \<Rightarrow> (None, s')
         | (Some e, s') \<Rightarrow> retry_loop (i + 1) attempts (Some e) callback sleep (sleep s'))
      else (err, s))"
  by pat_completeness auto
termination
  by (relation "measure (\<lambda>(i, attempts, err, callback, sleep, s). nat (attempts - i))") auto

declare retry_loop.simps [simp del]

definition retry ::
  "int \<Rightarrow> ('s \<Rightarrow> 's) \<Rightarrow> ('s \<Rightarrow> error option \<times> 's) \<Rightarrow> 's \<Rightarrow> error option \<times> 's" where
  "retry attempts sleep callback s = retry_loop 0 attempts None callback sleep s"

text \<open>The callback of Start: dial the listener and call HealthCheck on it.\<close>

definition probe ::
  "('a, 'c, 'p, 'n) Deps \<Rightarrow> ('a, 'c, 'p, 'n) Instance
     \<Rightarrow> error option \<times> ('a, 'c, 'p, 'n) Instance" where
  "probe d s0 =
     (let s = log_call Call_HealthCheck s0 in
      case HealthCheck_probe d (net s) of (err, n) \<Rightarrow> (err, s\<lparr>net := n\<rparr>))"

text \<open>
  Start.  Two goroutines send on the channel \<open>errs\<close>: the one that serves, when Serve
  returns, and the one that runs retry.  Start takes the first value sent.  Which one that
  is, is the argument \<open>serve\<close>: \<open>Some e\<close> when Serve has returned \<open>e\<close> before retry
  has finished, \<open>None\<close> when the server is still serving then.  The goroutine of retry
  runs to its end in both cases.
\<close>

definition Start ::
  "('a, 'c, 'p, 'n) Deps \<Rightarrow> error option option \<Rightarrow> ('a, 'c, 'p, 'n) Instance
     \<Rightarrow> error option \<times> ('a, 'c, 'p, 'n) Instance" where
  "Start d serve s0 =
     (let s1 = log_call Call_Cache_Start s0 in
      case Cache_Start d (Cache s1) of
        (Some err, c) \<Rightarrow> (Some (Wrap err ''failed to start cache''), s1\<lparr>Cache := c\<rparr>)
      | (None, c) \<Rightarrow>
          (let s2 = log_call Call_Metrics_Start (s1\<lparr>Cache := c\<rparr>) in
           case Metrics_Start d (net s2) of
             (Some err, n) \<Rightarrow>
               (Some (Wrap err ''failed to start metrics collector''), s2\<lparr>net := n\<rparr>)
           | (None, n) \<Rightarrow>
               (case retry 2 (log_call Call_Sleep) (probe d) (s2\<lparr>net := n\<rparr>) of
                  (r, s3) \<Rightarrow>
                    (case (case serve of Some e \<Rightarrow> e | None \<Rightarrow> r) of
                       Some err \<Rightarrow>
                         (Some (Wrap err ''while waiting for server to pass health check''), s3)
                     | None \<Rightarrow>
                         (let s4 = log_call (Call_PeerSyncer_Start (AdvertiseAddress s3)) s3 in
                          case PeerSyncer_Start d (AdvertiseAddress s4) (net s4) of
                            (Some err, n') \<Rightarrow>
                              (Some (Wrap err ''failed to sync configs with other peers''),
                               s4\<lparr>net := n'\<rparr>)
                          | (None, n') \<Rightarrow> (None, s4\<lparr>net := n'\<rparr>))))))"

subsection \<open>A cluster to run the model on\<close>

text \<open>
  Stand-ins for the functions of the other files, used to run the model on inputs: a picker
  that is the list of its handles and picks by the length of the key, a cache that counts
  the calls of the token bucket, a leaky bucket that fails, and a network (a number, the
  calls made so far) on which the peer \<open>''down:81''\<close> cannot be reached and the first
  health probe fails.
\<close>

definition ex_Get :: "PeerClient list \<Rightarrow> string \<Rightarrow> error + PeerClient" where
  "ex_Get p key =
     (if p = [] then Inl ''unable to pick a peer; pool is empty''
      else Inr (p ! (length key mod length p)))"

definition ex_deps :: "(unit, nat, PeerClient list, nat) Deps" where
  "ex_deps = \<lparr>
     tokenBucket = (\<lambda>c r. (Inr \<lparr>Limit = 10, Remaining = 9 - int c, ResetTime = 60,
                                Error = [], Metadata = Map.empty\<rparr>, Suc c)),
     leakyBucket = (\<lambda>c r. (Inl ''leaky bucket is full'', c)),
     GetPeerRateLimit = (\<lambda>peer r n.
        if host peer = ''down:81'' then (Inl ''connection refused'', Suc n)
        else (Inr \<lparr>Limit = 5, Remaining = 4, ResetTime = 30, Error = [],
                   Metadata = [''seen'' \<mapsto> ''remote'']\<rparr>, Suc n)),
     NewPeerClient = (\<lambda>a n.
        if a = ''bad:81'' then (Inl ''dial failed'', Suc n)
        else (Inr \<lparr>host = a, isOwner = False\<rparr>, Suc n)),
     Picker_New = (\<lambda>p. []),
     Picker_Add = (\<lambda>p h. p @ [h]),
     Picker_Get = ex_Get,
     Picker_GetPeer = (\<lambda>p a. find (\<lambda>h. host h = a) p),
     Picker_Size = (\<lambda>p. int (length p)),
     Cache_Start = (\<lambda>c. (None, c)),
     Metrics_Start = (\<lambda>n. (None, n)),
     HealthCheck_probe = (\<lambda>n. (if n = 0 then Some ''connection refused'' else None, Suc n)),
     PeerSyncer_Start = (\<lambda>a n. (None, Suc n))\<rparr>"

definition ex_instance :: "(unit, nat, PeerClient list, nat) Instance" where
  "ex_instance = \<lparr>
     health = \<lparr>Status = [], Message = [], PeerCount = 0\<rparr>,
     Picker = [\<lparr>host = ''self:81'', isOwner = True\<rparr>, \<lparr>host = ''peer:81'', isOwner = False\<rparr>,
               \<lparr>host = ''down:81'', isOwner = False\<rparr>],
     Cache = 0,
     AdvertiseAddress = ''self:81'',
     net = 0,
     calls = []\<rparr>"

definition ex_req :: "string \<Rightarrow> string \<Rightarrow> Algorithm \<Rightarrow> unit Request" where
  "ex_req ns k a = \<lparr>Namespace = ns, UniqueKey = k, Algorithm = a, Params = ()\<rparr>"

text \<open>
  A batch of three: a key the instance owns, a key owned by the peer that is down, and a
  request without a namespace.
\<close>

definition ex_batch :: "unit Request list" where
  "ex_batch = [ex_req ''ns'' ''kkk'' Algorithm_TOKEN_BUCKET,
               ex_req ''ns'' ''kk'' Algorithm_TOKEN_BUCKET,
               ex_req [] ''k'' Algorithm_TOKEN_BUCKET]"

text \<open>Two membership lists: one with an address that cannot be connected, one without.\<close>

definition ex_peers :: "string list" where
  "ex_peers = [''self:81'', ''bad:81'', ''new:81'']"

definition ex_peers_up :: "string list" where
  "ex_peers_up = [''self:81'', ''peer:81'']"

text \<open>The same functions with a listener that no health probe ever reaches.\<close>

definition ex_deps_unreachable :: "(unit, nat, PeerClient list, nat) Deps" where
  "ex_deps_unreachable =
     ex_deps\<lparr>HealthCheck_probe := (\<lambda>n. (Some ''connection refused'', Suc n))\<rparr>"

section \<open>Properties\<close>


subsection \<open>GetRateLimits\<close>

lemma decimal_maxBatchSize: "decimal maxBatchSize = ''1000''"
  by (simp add: maxBatchSize_def decimal.simps)

lemma GetRateLimits_loop_append:
  "GetRateLimits_loop d s (xs @ ys) resp =
     (case GetRateLimits_loop d s xs resp of (resp', s') \<Rightarrow> GetRateLimits_loop d s' ys resp')"
  by (induction xs arbitrary: s resp) (simp_all split: prod.splits)

lemma GetRateLimits_loop_snoc:
  "GetRateLimits_loop d s (xs @ [x]) [] =
     (fst (GetRateLimits_loop d s xs []) @ [fst (GetRateLimits_item d (snd (GetRateLimits_loop d s xs [])) x)],
      snd (GetRateLimits_item d (snd (GetRateLimits_loop d s xs [])) x))"
  by (simp add: GetRateLimits_loop_append split: prod.splits)

lemma GetRateLimits_loop_length:
  "length (fst (GetRateLimits_loop d s xs [])) = length xs"
  by (induction xs rule: rev_induct) (simp_all add: GetRateLimits_loop_snoc)

lemma GetRateLimits_loop_take:
  "i \<le> length xs \<Longrightarrow>
     fst (GetRateLimits_loop d s (take i xs) []) = take i (fst (GetRateLimits_loop d s xs []))"
proof (induction xs rule: rev_induct)
  case Nil
  then show ?case by simp
next
  case (snoc x xs)
  show ?case
  proof (cases "i \<le> length xs")
    case True
    then show ?thesis using snoc.IH
      by (simp add: GetRateLimits_loop_snoc GetRateLimits_loop_length)
  next
    case False
    with snoc.prems have "i = Suc (length xs)" by simp
    then show ?thesis by (simp add: GetRateLimits_loop_length GetRateLimits_loop_snoc)
  qed
qed

lemma GetRateLimits_loop_nth:
  assumes "i < length xs"
  shows "fst (GetRateLimits_loop d s xs []) ! i =
           fst (GetRateLimits_item d (snd (GetRateLimits_loop d s (take i xs) [])) (xs ! i))"
    and "snd (GetRateLimits_loop d s (take (Suc i) xs) []) =
           snd (GetRateLimits_item d (snd (GetRateLimits_loop d s (take i xs) [])) (xs ! i))"
proof -
  have t: "take (Suc i) xs = take i xs @ [xs ! i]"
    using assms by (simp add: take_Suc_conv_app_nth)
  have "fst (GetRateLimits_loop d s (take (Suc i) xs) []) = take (Suc i) (fst (GetRateLimits_loop d s xs []))"
    using assms by (intro GetRateLimits_loop_take) simp
  then have "fst (GetRateLimits_loop d s (take (Suc i) xs) []) ! i = fst (GetRateLimits_loop d s xs []) ! i"
    by simp
  moreover have "fst (GetRateLimits_loop d s (take (Suc i) xs) []) ! i
      = fst (GetRateLimits_item d (snd (GetRateLimits_loop d s (take i xs) [])) (xs ! i))"
    using assms unfolding t GetRateLimits_loop_snoc
    by (simp add: nth_append GetRateLimits_loop_length)
  ultimately show "fst (GetRateLimits_loop d s xs []) ! i =
           fst (GetRateLimits_item d (snd (GetRateLimits_loop d s (take i xs) [])) (xs ! i))"
    by simp
  show "snd (GetRateLimits_loop d s (take (Suc i) xs) []) =
           snd (GetRateLimits_item d (snd (GetRateLimits_loop d s (take i xs) [])) (xs ! i))"
    unfolding t GetRateLimits_loop_snoc by simp
qed

lemma GetRateLimits_accepted:
  "length r \<le> maxBatchSize \<Longrightarrow>
     GetRateLimits d s r = (Inr (fst (GetRateLimits_loop d s r [])), snd (GetRateLimits_loop d s r []))"
  by (simp add: GetRateLimits_def split: prod.splits)


lemma getRateLimit_frame:
  "Picker (snd (getRateLimit d s r)) = Picker s"
  "net (snd (getRateLimit d s r)) = net s"
  "calls (snd (getRateLimit d s r)) = calls s @ [Call_getRateLimit r]"
  "health (snd (getRateLimit d s r)) = health s"
  "AdvertiseAddress (snd (getRateLimit d s r)) = AdvertiseAddress s"
  by (cases "Algorithm r"; simp add: getRateLimit_def log_call_def split: prod.splits)+

lemma getRateLimit_log_call:
  "fst (getRateLimit d (log_call c s) r) = fst (getRateLimit d s r)"
  "Cache (snd (getRateLimit d (log_call c s) r)) = Cache (snd (getRateLimit d s r))"
  by (cases "Algorithm r"; simp add: getRateLimit_def log_call_def split: prod.splits)+

lemma GetRateLimits_item_invalid:
  "UniqueKey req = [] \<or> Namespace req = [] \<Longrightarrow>
     GetRateLimits_item d s req =
       (RateLimit_Error (if UniqueKey req = [] then ''field 'unique_key' cannot be empty''
                         else ''field 'namespace' cannot be empty''), s)"
  by (auto simp: GetRateLimits_item_def)

lemma GetRateLimits_item_no_peer:
  "UniqueKey req \<noteq> [] \<Longrightarrow> Namespace req \<noteq> [] \<Longrightarrow>
   Picker_Get d (Picker s) (globalKey req) = Inl err \<Longrightarrow>
     GetRateLimits_item d s req =
       (RateLimit_Error (''while finding peer that owns rate limit ''
          @ quoted (globalKey req) @ '' - '' @ quoted err), log_call (Call_Get (globalKey req)) s)"
  by (simp add: GetRateLimits_item_def log_call_def)

lemma GetRateLimits_item_owner:
  "UniqueKey req \<noteq> [] \<Longrightarrow> Namespace req \<noteq> [] \<Longrightarrow>
   Picker_Get d (Picker s) (globalKey req) = Inr peer \<Longrightarrow> isOwner peer \<Longrightarrow>
     GetRateLimits_item d s req =
       ((case fst (getRateLimit d s req) of
           Inl err \<Rightarrow> RateLimit_Error (''while applying rate limit for ''
                        @ quoted (globalKey req) @ '' - '' @ quoted err)
         | Inr rl \<Rightarrow> rl),
        snd (getRateLimit d (log_call (Call_Get (globalKey req)) s) req))"
  using getRateLimit_log_call(1)[of d "Call_Get (globalKey req)" s req]
  by (cases "getRateLimit d (log_call (Call_Get (globalKey req)) s) req")
     (auto simp: GetRateLimits_item_def log_call_def split: sum.splits)

lemma GetRateLimits_item_remote:
  "UniqueKey req \<noteq> [] \<Longrightarrow> Namespace req \<noteq> [] \<Longrightarrow>
   Picker_Get d (Picker s) (globalKey req) = Inr peer \<Longrightarrow> \<not> isOwner peer \<Longrightarrow>
     GetRateLimits_item d s req =
       ((case fst (GetPeerRateLimit d peer req (net s)) of
           Inl err \<Rightarrow> RateLimit_Error (''while fetching rate limit ''
                        @ quoted (globalKey req) @ '' from peer - '' @ quoted err)
         | Inr rl \<Rightarrow> rl)\<lparr>Metadata := [''owner'' \<mapsto> host peer]\<rparr>,
        s\<lparr>calls := calls s @ [Call_Get (globalKey req), Call_GetPeerRateLimit (host peer) req],
          net := snd (GetPeerRateLimit d peer req (net s))\<rparr>)"
  by (cases "GetPeerRateLimit d peer req (net s)")
     (simp add: GetRateLimits_item_def log_call_def Let_def)

lemma GetRateLimits_item_Picker:
  "Picker (snd (GetRateLimits_item d s req)) = Picker s"
proof (cases "UniqueKey req = [] \<or> Namespace req = []")
  case True
  then show ?thesis by (simp add: GetRateLimits_item_invalid)
next
  case False
  then have v: "UniqueKey req \<noteq> []" "Namespace req \<noteq> []" by simp_all
  show ?thesis
  proof (cases "Picker_Get d (Picker s) (globalKey req)")
    case (Inl err)
    then show ?thesis using v by (simp add: GetRateLimits_item_no_peer log_call_def)
  next
    case (Inr peer)
    then show ?thesis using v
      by (cases "isOwner peer")
         (simp_all add: GetRateLimits_item_owner GetRateLimits_item_remote
            getRateLimit_frame log_call_def)
  qed
qed

lemma GetRateLimits_loop_Picker:
  "Picker (snd (GetRateLimits_loop d s xs [])) = Picker s"
  by (induction xs rule: rev_induct) (simp_all add: GetRateLimits_loop_snoc GetRateLimits_item_Picker)

lemma RateLimit_Error_sel:
  "Error (RateLimit_Error e) = e" "Metadata (RateLimit_Error e) = Map.empty"
  by (simp_all add: RateLimit_Error_def)

text \<open>
  C5.  A batch longer than maxBatchSize (1000) is refused as a whole by GetRateLimits and by
  GetPeerRateLimits: the call returns the status OutOfRange with a message that names the
  bound, and the instance, its cache, the network and the log of calls are as before, so no
  item has been validated, routed, computed or sent.
\<close>

theorem oversized_batch_rejected:
  assumes "length r > 1000"
  shows "GetRateLimits d s r =
           (Inl (Errorf OutOfRange
              (''Requests.RateLimits list too large; max size is '' @ quoted ''1000'')), s)
       \<and> GetPeerRateLimits d s r =
           (Inl (Errorf OutOfRange
              (quoted ''PeerRequest.rate_limits'' @ '' list too large; max size is ''
                 @ quoted ''1000'')), s)"
  using assms
  by (simp add: GetRateLimits_def GetPeerRateLimits_def decimal_maxBatchSize)
     (simp add: maxBatchSize_def)

theorem oversized_batch_rejected_witness:
  "length (replicate 1001 (ex_req ''ns'' ''k'' Algorithm_TOKEN_BUCKET)) > 1000
   \<and> GetRateLimits ex_deps ex_instance (replicate 1001 (ex_req ''ns'' ''k'' Algorithm_TOKEN_BUCKET)) =
           (Inl (Errorf OutOfRange
              (''Requests.RateLimits list too large; max size is '' @ quoted ''1000'')), ex_instance)
       \<and> GetPeerRateLimits ex_deps ex_instance (replicate 1001 (ex_req ''ns'' ''k'' Algorithm_TOKEN_BUCKET)) =
           (Inl (Errorf OutOfRange
              (quoted ''PeerRequest.rate_limits'' @ '' list too large; max size is ''
                 @ quoted ''1000'')), ex_instance)"
  using oversized_batch_rejected [of "replicate 1001 (ex_req ''ns'' ''k'' Algorithm_TOKEN_BUCKET)" ex_deps ex_instance]
  by simp

text \<open>
  C6.  In a batch that GetRateLimits accepts, an item with an empty unique_key or an empty
  namespace gets a result whose error names the missing field: unique_key is tested first,
  and an empty namespace alone gives exactly "field 'namespace' cannot be empty".  Handling
  the item changes nothing: the state after the first \<open>i + 1\<close> items is the state
  after the first \<open>i\<close>, so no lookup, no local algorithm and no remote call was made
  for it.
\<close>

theorem GetRateLimits_missing_field:
  assumes "length r \<le> maxBatchSize" and "i < length r"
    and "UniqueKey (r ! i) = [] \<or> Namespace (r ! i) = []"
  shows "\<exists>resp s'. GetRateLimits d s r = (Inr resp, s')
           \<and> resp ! i = RateLimit_Error
                (if UniqueKey (r ! i) = [] then ''field 'unique_key' cannot be empty''
                 else ''field 'namespace' cannot be empty'')
           \<and> Error (resp ! i) \<noteq> []
           \<and> snd (GetRateLimits d s (take (Suc i) r)) = snd (GetRateLimits d s (take i r))"
proof -
  let ?si = "snd (GetRateLimits_loop d s (take i r) [])"
  have it: "GetRateLimits_item d ?si (r ! i) =
       (RateLimit_Error (if UniqueKey (r ! i) = [] then ''field 'unique_key' cannot be empty''
                         else ''field 'namespace' cannot be empty''), ?si)"
    using assms(3) by (rule GetRateLimits_item_invalid)
  have "fst (GetRateLimits_loop d s r []) ! i = RateLimit_Error
                (if UniqueKey (r ! i) = [] then ''field 'unique_key' cannot be empty''
                 else ''field 'namespace' cannot be empty'')"
    using GetRateLimits_loop_nth(1)[OF assms(2), of d s] it by simp
  moreover have "snd (GetRateLimits_loop d s (take (Suc i) r) []) = ?si"
    using GetRateLimits_loop_nth(2)[OF assms(2), of d s] it by simp
  moreover have "length (take (Suc i) r) \<le> maxBatchSize" "length (take i r) \<le> maxBatchSize"
    using assms(1,2) by simp_all
  ultimately show ?thesis
    using assms(1) by (simp add: GetRateLimits_accepted RateLimit_Error_sel)
qed

theorem GetRateLimits_missing_field_witness:
  "length [ex_req ''ns'' ''k'' Algorithm_TOKEN_BUCKET, ex_req [] ''kk'' Algorithm_TOKEN_BUCKET]
      \<le> maxBatchSize
   \<and> (\<exists>resp s'. GetRateLimits ex_deps ex_instance
          [ex_req ''ns'' ''k'' Algorithm_TOKEN_BUCKET, ex_req [] ''kk'' Algorithm_TOKEN_BUCKET]
            = (Inr resp, s')
        \<and> resp ! 1 = RateLimit_Error ''field 'namespace' cannot be empty''
        \<and> Error (resp ! 1) \<noteq> [])"
  using GetRateLimits_missing_field
    [of "[ex_req ''ns'' ''k'' Algorithm_TOKEN_BUCKET, ex_req [] ''kk'' Algorithm_TOKEN_BUCKET]"
        1 ex_deps ex_instance]
  by (auto simp: maxBatchSize_def ex_req_def)

lemma GetRateLimits_item_failure:
  assumes "UniqueKey req = [] \<or> Namespace req = []
     \<or> (\<exists>e. Picker_Get d (Picker s) (globalKey req) = Inl e)
     \<or> (\<exists>peer e. Picker_Get d (Picker s) (globalKey req) = Inr peer \<and> isOwner peer
           \<and> fst (getRateLimit d s req) = Inl e)
     \<or> (\<exists>peer e. Picker_Get d (Picker s) (globalKey req) = Inr peer \<and> \<not> isOwner peer
           \<and> fst (GetPeerRateLimit d peer req (net s)) = Inl e)"
  shows "Error (fst (GetRateLimits_item d s req)) \<noteq> []"
proof (cases "UniqueKey req = [] \<or> Namespace req = []")
  case True
  then show ?thesis by (auto simp: GetRateLimits_item_invalid RateLimit_Error_sel)
next
  case False
  then have v: "UniqueKey req \<noteq> []" "Namespace req \<noteq> []" by simp_all
  show ?thesis
  proof (cases "Picker_Get d (Picker s) (globalKey req)")
    case (Inl err)
    then show ?thesis
      using v by (simp add: GetRateLimits_item_no_peer RateLimit_Error_sel)
  next
    case (Inr peer)
    show ?thesis
    proof (cases "isOwner peer")
      case True
      with assms v Inr obtain e where "fst (getRateLimit d s req) = Inl e" by auto
      then show ?thesis
        using v Inr True by (simp add: GetRateLimits_item_owner RateLimit_Error_sel)
    next
      case False
      with assms v Inr obtain e where "fst (GetPeerRateLimit d peer req (net s)) = Inl e" by auto
      then show ?thesis
        using v Inr False by (simp add: GetRateLimits_item_remote RateLimit_Error_sel)
    qed
  qed
qed

lemma GetRateLimits_prefix_state:
  "length r \<le> maxBatchSize \<Longrightarrow>
     snd (GetRateLimits d s (take i r)) = snd (GetRateLimits_loop d s (take i r) [])"
  by (simp add: GetRateLimits_accepted)

text \<open>
  C1.  A batch of at most maxBatchSize requests is accepted: GetRateLimits returns no error
  and a list with one result for each request, the result at position \<open>i\<close> being the one
  computed for request \<open>i\<close> in the state left by the requests before it.  A request that
  fails validation, the lookup of its owner, the local algorithm or the remote call has a
  result with a non-empty error string, and the call still succeeds.
\<close>

theorem GetRateLimits_one_result_per_item:
  assumes "length r \<le> maxBatchSize"
  shows "\<exists>resp s'. GetRateLimits d s r = (Inr resp, s') \<and> length resp = length r
     \<and> (\<forall>i<length r.
           resp ! i = fst (GetRateLimits_item d (snd (GetRateLimits d s (take i r))) (r ! i))
         \<and> (UniqueKey (r ! i) = [] \<or> Namespace (r ! i) = []
            \<or> (\<exists>e. Picker_Get d (Picker s) (globalKey (r ! i)) = Inl e)
            \<or> (\<exists>peer e. Picker_Get d (Picker s) (globalKey (r ! i)) = Inr peer \<and> isOwner peer
                  \<and> fst (getRateLimit d (snd (GetRateLimits d s (take i r))) (r ! i)) = Inl e)
            \<or> (\<exists>peer e. Picker_Get d (Picker s) (globalKey (r ! i)) = Inr peer \<and> \<not> isOwner peer
                  \<and> fst (GetPeerRateLimit d peer (r ! i)
                           (net (snd (GetRateLimits d s (take i r))))) = Inl e)
            \<longrightarrow> Error (resp ! i) \<noteq> []))"
proof -
  let ?resp = "fst (GetRateLimits_loop d s r [])"
  have res: "GetRateLimits d s r = (Inr ?resp, snd (GetRateLimits_loop d s r []))"
    using assms by (rule GetRateLimits_accepted)
  have len: "length ?resp = length r"
    by (rule GetRateLimits_loop_length)
  have item: "?resp ! i = fst (GetRateLimits_item d (snd (GetRateLimits d s (take i r))) (r ! i))"
    if "i < length r" for i
    using GetRateLimits_loop_nth(1)[OF that, of d s] assms
    by (simp add: GetRateLimits_prefix_state)
  have err: "Error (?resp ! i) \<noteq> []"
    if i: "i < length r" and f: "UniqueKey (r ! i) = [] \<or> Namespace (r ! i) = []
            \<or> (\<exists>e. Picker_Get d (Picker s) (globalKey (r ! i)) = Inl e)
            \<or> (\<exists>peer e. Picker_Get d (Picker s) (globalKey (r ! i)) = Inr peer \<and> isOwner peer
                  \<and> fst (getRateLimit d (snd (GetRateLimits d s (take i r))) (r ! i)) = Inl e)
            \<or> (\<exists>peer e. Picker_Get d (Picker s) (globalKey (r ! i)) = Inr peer \<and> \<not> isOwner peer
                  \<and> fst (GetPeerRateLimit d peer (r ! i)
                           (net (snd (GetRateLimits d s (take i r))))) = Inl e)" for i
  proof -
    let ?si = "snd (GetRateLimits d s (take i r))"
    have "Picker ?si = Picker s"
      using assms by (simp add: GetRateLimits_prefix_state GetRateLimits_loop_Picker)
    with f show ?thesis
      unfolding item[OF i] by (intro GetRateLimits_item_failure) simp
  qed
  show ?thesis
    using res len item err by blast
qed

theorem GetRateLimits_one_result_per_item_witness:
  "length ex_batch \<le> maxBatchSize
   \<and> (\<exists>resp s'. GetRateLimits ex_deps ex_instance ex_batch = (Inr resp, s')
        \<and> length resp = length ex_batch)"
proof -
  have h: "length ex_batch \<le> maxBatchSize"
    by (simp add: maxBatchSize_def ex_batch_def)
  from GetRateLimits_one_result_per_item [OF h, of ex_deps ex_instance]
  obtain resp s' where "GetRateLimits ex_deps ex_instance ex_batch = (Inr resp, s')"
    and "length resp = length ex_batch"
    by auto
  with h show ?thesis by blast
qed

text \<open>The three results of the batch: remaining, error and owner metadata of each.\<close>

lemma GetRateLimits_example:
  "map (\<lambda>rl. (Remaining rl, Error rl, Metadata rl ''owner''))
     (case fst (GetRateLimits ex_deps ex_instance ex_batch) of Inr resp \<Rightarrow> resp | Inl e \<Rightarrow> [])
   = [(9, [], None),
      (0, ''while fetching rate limit '' @ quoted ''ns_kk'' @ '' from peer - ''
            @ quoted ''connection refused'', Some ''down:81''),
      (0, ''field 'namespace' cannot be empty'', None)]"
  by (simp add: GetRateLimits_def maxBatchSize_def GetRateLimits_item_def ex_req_def ex_batch_def
      ex_instance_def ex_deps_def ex_Get_def globalKey_def getRateLimit_def log_call_def
      RateLimit_Error_def Let_def)

lemma getRateLimit_buckets:
  "Algorithm req = Algorithm_TOKEN_BUCKET \<Longrightarrow>
     fst (getRateLimit d s req) = fst (tokenBucket d (Cache s) req)"
  "Algorithm req = Algorithm_LEAKY_BUCKET \<Longrightarrow>
     fst (getRateLimit d s req) = fst (leakyBucket d (Cache s) req)"
  "Algorithm req = Algorithm_other n \<Longrightarrow>
     fst (getRateLimit d s req) = Inl (''invalid rate limit algorithm '' @ quoted (itoa n))"
  by (simp_all add: getRateLimit_def log_call_def split: prod.splits)

lemma getRateLimit_Cache:
  "Algorithm req = Algorithm_TOKEN_BUCKET \<Longrightarrow>
     Cache (snd (getRateLimit d s req)) = snd (tokenBucket d (Cache s) req)"
  "Algorithm req = Algorithm_LEAKY_BUCKET \<Longrightarrow>
     Cache (snd (getRateLimit d s req)) = snd (leakyBucket d (Cache s) req)"
  "Algorithm req = Algorithm_other n \<Longrightarrow>
     Cache (snd (getRateLimit d s req)) = Cache s"
  by (simp_all add: getRateLimit_def log_call_def split: prod.splits)

lemma getRateLimit_no_owner:
  assumes "\<forall>c req rl. fst (tokenBucket d c req) = Inr rl \<longrightarrow> Metadata rl ''owner'' = None"
    and "\<forall>c req rl. fst (leakyBucket d c req) = Inr rl \<longrightarrow> Metadata rl ''owner'' = None"
    and "fst (getRateLimit d s req) = Inr rl"
  shows "Metadata rl ''owner'' = None"
proof (cases "Algorithm req")
  case Algorithm_TOKEN_BUCKET
  with assms(1,3) show ?thesis by (simp add: getRateLimit_buckets(1))
next
  case Algorithm_LEAKY_BUCKET
  with assms(2,3) show ?thesis by (simp add: getRateLimit_buckets(2))
next
  case (Algorithm_other n)
  with assms(3) show ?thesis by (simp add: getRateLimit_buckets(3))
qed

lemma ex_batch_facts:
  "length ex_batch \<le> maxBatchSize" "length ex_batch = 3"
  "UniqueKey (ex_batch ! 1) \<noteq> []" "Namespace (ex_batch ! 1) \<noteq> []"
  "Picker_Get ex_deps (Picker ex_instance) (globalKey (ex_batch ! 1))
     = Inr \<lparr>host = ''down:81'', isOwner = False\<rparr>"
  by (simp_all add: ex_batch_def maxBatchSize_def ex_req_def ex_deps_def ex_instance_def
      ex_Get_def globalKey_def)

lemma ex_batch_owned:
  "UniqueKey (ex_batch ! 0) \<noteq> []" "Namespace (ex_batch ! 0) \<noteq> []"
  "Picker_Get ex_deps (Picker ex_instance) (globalKey (ex_batch ! 0))
     = Inr \<lparr>host = ''self:81'', isOwner = True\<rparr>"
  "Algorithm (ex_batch ! 0) = Algorithm_TOKEN_BUCKET"
  "globalKey (ex_batch ! 0) = ''ns_kkk''"
  by (simp_all add: ex_batch_def ex_req_def ex_deps_def ex_instance_def
      ex_Get_def globalKey_def)

lemma ex_deps_no_owner:
  "\<forall>c req rl. fst (tokenBucket ex_deps c req) = Inr rl \<longrightarrow> Metadata rl ''owner'' = None"
  "\<forall>c req rl. fst (leakyBucket ex_deps c req) = Inr rl \<longrightarrow> Metadata rl ''owner'' = None"
  by (auto simp: ex_deps_def)

text \<open>
  C4.  The two bucket algorithms are in other files; they are taken to return results whose
  metadata has no owner entry.  In an accepted batch, a valid item whose lookup gives a handle
  with isOwner set is served by the local algorithm: the calls made for it are the lookup and
  getRateLimit, no remote call, the network is untouched, and the result is the answer of the
  bucket algorithm that the request names, computed on the cache, which that algorithm
  updates (its error, or the error for any other algorithm number, becomes the error result);
  the metadata of the result has no owner entry.  A valid item whose lookup gives a handle that
  is not the owner is sent to that peer: the calls made are the lookup and the remote call,
  the cache is untouched, and the result's metadata maps "owner" to the address of the peer.
\<close>

theorem GetRateLimits_owner_local_else_remote:
  assumes "length r \<le> maxBatchSize" and "i < length r"
    and "UniqueKey (r ! i) \<noteq> []" and "Namespace (r ! i) \<noteq> []"
    and "Picker_Get d (Picker s) (globalKey (r ! i)) = Inr peer"
    and "\<forall>c req rl. fst (tokenBucket d c req) = Inr rl \<longrightarrow> Metadata rl ''owner'' = None"
    and "\<forall>c req rl. fst (leakyBucket d c req) = Inr rl \<longrightarrow> Metadata rl ''owner'' = None"
  shows "\<exists>resp s'. GetRateLimits d s r = (Inr resp, s')
     \<and> (isOwner peer \<longrightarrow>
          calls (snd (GetRateLimits d s (take (Suc i) r)))
            = calls (snd (GetRateLimits d s (take i r)))
                @ [Call_Get (globalKey (r ! i)), Call_getRateLimit (r ! i)]
        \<and> net (snd (GetRateLimits d s (take (Suc i) r))) = net (snd (GetRateLimits d s (take i r)))
        \<and> resp ! i =
            (case fst (getRateLimit d (snd (GetRateLimits d s (take i r))) (r ! i)) of
               Inl err \<Rightarrow> RateLimit_Error (''while applying rate limit for ''
                            @ quoted (globalKey (r ! i)) @ '' - '' @ quoted err)
             | Inr rl \<Rightarrow> rl)
        \<and> (Algorithm (r ! i) = Algorithm_TOKEN_BUCKET \<longrightarrow>
             resp ! i =
               (case fst (tokenBucket d (Cache (snd (GetRateLimits d s (take i r)))) (r ! i)) of
                  Inl err \<Rightarrow> RateLimit_Error (''while applying rate limit for ''
                               @ quoted (globalKey (r ! i)) @ '' - '' @ quoted err)
                | Inr rl \<Rightarrow> rl)
           \<and> Cache (snd (GetRateLimits d s (take (Suc i) r)))
               = snd (tokenBucket d (Cache (snd (GetRateLimits d s (take i r)))) (r ! i)))
        \<and> (Algorithm (r ! i) = Algorithm_LEAKY_BUCKET \<longrightarrow>
             resp ! i =
               (case fst (leakyBucket d (Cache (snd (GetRateLimits d s (take i r)))) (r ! i)) of
                  Inl err \<Rightarrow> RateLimit_Error (''while applying rate limit for ''
                               @ quoted (globalKey (r ! i)) @ '' - '' @ quoted err)
                | Inr rl \<Rightarrow> rl)
           \<and> Cache (snd (GetRateLimits d s (take (Suc i) r)))
               = snd (leakyBucket d (Cache (snd (GetRateLimits d s (take i r)))) (r ! i)))
        \<and> (\<forall>n. Algorithm (r ! i) = Algorithm_other n \<longrightarrow>
             resp ! i = RateLimit_Error (''while applying rate limit for ''
                          @ quoted (globalKey (r ! i)) @ '' - ''
                          @ quoted (''invalid rate limit algorithm '' @ quoted (itoa n)))
           \<and> Cache (snd (GetRateLimits d s (take (Suc i) r)))
               = Cache (snd (GetRateLimits d s (take i r))))
        \<and> Metadata (resp ! i) ''owner'' = None)
     \<and> (\<not> isOwner peer \<longrightarrow>
          calls (snd (GetRateLimits d s (take (Suc i) r)))
            = calls (snd (GetRateLimits d s (take i r)))
                @ [Call_Get (globalKey (r ! i)), Call_GetPeerRateLimit (host peer) (r ! i)]
        \<and> Cache (snd (GetRateLimits d s (take (Suc i) r)))
            = Cache (snd (GetRateLimits d s (take i r)))
        \<and> Metadata (resp ! i) ''owner'' = Some (host peer))"
proof -
  let ?si = "snd (GetRateLimits d s (take i r))"
  let ?sj = "snd (GetRateLimits d s (take (Suc i) r))"
  let ?resp = "fst (GetRateLimits_loop d s r [])"
  let ?key = "globalKey (r ! i)"
  let ?wrap = "\<lambda>res. case res of
                 Inl err \<Rightarrow> RateLimit_Error (''while applying rate limit for ''
                              @ quoted ?key @ '' - '' @ quoted err)
               | Inr rl \<Rightarrow> rl"
  have res: "GetRateLimits d s r = (Inr ?resp, snd (GetRateLimits_loop d s r []))"
    using assms(1) by (rule GetRateLimits_accepted)
  have si: "?si = snd (GetRateLimits_loop d s (take i r) [])"
    using assms(1) by (rule GetRateLimits_prefix_state)
  have pk: "Picker_Get d (Picker ?si) ?key = Inr peer"
    using assms(5) by (simp add: si GetRateLimits_loop_Picker)
  have item: "?resp ! i = fst (GetRateLimits_item d ?si (r ! i))"
    using GetRateLimits_loop_nth(1)[OF assms(2), of d s] by (simp add: si)
  have sj: "?sj = snd (GetRateLimits_item d ?si (r ! i))"
    using GetRateLimits_loop_nth(2)[OF assms(2), of d s] assms(1)
    by (simp add: GetRateLimits_prefix_state)
  have own: "GetRateLimits_item d ?si (r ! i) =
       (?wrap (fst (getRateLimit d ?si (r ! i))),
        snd (getRateLimit d (log_call (Call_Get ?key) ?si) (r ! i)))"
    if "isOwner peer"
    using assms(3,4) pk that by (rule GetRateLimits_item_owner)
  have rem: "GetRateLimits_item d ?si (r ! i) =
       ((case fst (GetPeerRateLimit d peer (r ! i) (net ?si)) of
           Inl err \<Rightarrow> RateLimit_Error (''while fetching rate limit ''
                        @ quoted ?key @ '' from peer - '' @ quoted err)
         | Inr rl \<Rightarrow> rl)\<lparr>Metadata := [''owner'' \<mapsto> host peer]\<rparr>,
        ?si\<lparr>calls := calls ?si @ [Call_Get ?key, Call_GetPeerRateLimit (host peer) (r ! i)],
          net := snd (GetPeerRateLimit d peer (r ! i) (net ?si))\<rparr>)"
    if "\<not> isOwner peer"
    using assms(3,4) pk that by (rule GetRateLimits_item_remote)
  have l_calls: "calls ?sj = calls ?si @ [Call_Get ?key, Call_getRateLimit (r ! i)]"
    and l_net: "net ?sj = net ?si"
    and l_res: "?resp ! i = ?wrap (fst (getRateLimit d ?si (r ! i)))"
    if o: "isOwner peer"
    unfolding item sj own[OF o]
    by (simp_all add: getRateLimit_frame log_call_def)
  have l_cache: "Cache ?sj = Cache (snd (getRateLimit d ?si (r ! i)))"
    if o: "isOwner peer"
    unfolding sj own[OF o] by (simp add: getRateLimit_log_call(2))
  have l_token: "?resp ! i = ?wrap (fst (tokenBucket d (Cache ?si) (r ! i)))
      \<and> Cache ?sj = snd (tokenBucket d (Cache ?si) (r ! i))"
    if o: "isOwner peer" and a: "Algorithm (r ! i) = Algorithm_TOKEN_BUCKET"
    using l_res[OF o] l_cache[OF o]
    by (simp add: getRateLimit_buckets(1)[OF a] getRateLimit_Cache(1)[OF a])
  have l_leaky: "?resp ! i = ?wrap (fst (leakyBucket d (Cache ?si) (r ! i)))
      \<and> Cache ?sj = snd (leakyBucket d (Cache ?si) (r ! i))"
    if o: "isOwner peer" and a: "Algorithm (r ! i) = Algorithm_LEAKY_BUCKET"
    using l_res[OF o] l_cache[OF o]
    by (simp add: getRateLimit_buckets(2)[OF a] getRateLimit_Cache(2)[OF a])
  have l_other: "?resp ! i = RateLimit_Error (''while applying rate limit for ''
                          @ quoted ?key @ '' - ''
                          @ quoted (''invalid rate limit algorithm '' @ quoted (itoa n)))
      \<and> Cache ?sj = Cache ?si"
    if o: "isOwner peer" and a: "Algorithm (r ! i) = Algorithm_other n" for n
    using l_res[OF o] l_cache[OF o]
    by (simp add: getRateLimit_buckets(3)[OF a] getRateLimit_Cache(3)[OF a])
  have l_meta: "Metadata (?resp ! i) ''owner'' = None" if o: "isOwner peer"
  proof (cases "fst (getRateLimit d ?si (r ! i))")
    case (Inl err)
    then show ?thesis by (simp add: l_res[OF o] RateLimit_Error_sel)
  next
    case (Inr rl)
    with getRateLimit_no_owner[OF assms(6,7) Inr] show ?thesis
      by (simp add: l_res[OF o])
  qed
  have remote: "calls ?sj = calls ?si
                @ [Call_Get ?key, Call_GetPeerRateLimit (host peer) (r ! i)]
        \<and> Cache ?sj = Cache ?si
        \<and> Metadata (?resp ! i) ''owner'' = Some (host peer)"
    if o: "\<not> isOwner peer"
    unfolding item sj rem[OF o] by simp
  show ?thesis
    using res l_calls l_net l_res l_token l_leaky l_other l_meta remote by blast
qed

theorem GetRateLimits_owner_local_else_remote_witness:
  "length ex_batch \<le> maxBatchSize \<and> 0 < length ex_batch \<and> 1 < length ex_batch
   \<and> UniqueKey (ex_batch ! 0) \<noteq> [] \<and> Namespace (ex_batch ! 0) \<noteq> []
   \<and> Picker_Get ex_deps (Picker ex_instance) (globalKey (ex_batch ! 0))
       = Inr \<lparr>host = ''self:81'', isOwner = True\<rparr>
   \<and> UniqueKey (ex_batch ! 1) \<noteq> [] \<and> Namespace (ex_batch ! 1) \<noteq> []
   \<and> Picker_Get ex_deps (Picker ex_instance) (globalKey (ex_batch ! 1))
       = Inr \<lparr>host = ''down:81'', isOwner = False\<rparr>
   \<and> (\<exists>resp s'. GetRateLimits ex_deps ex_instance ex_batch = (Inr resp, s')
        \<and> calls (snd (GetRateLimits ex_deps ex_instance (take (Suc 0) ex_batch)))
            = calls (snd (GetRateLimits ex_deps ex_instance (take 0 ex_batch)))
                @ [Call_Get (globalKey (ex_batch ! 0)), Call_getRateLimit (ex_batch ! 0)]
        \<and> resp ! 0 =
            (case fst (tokenBucket ex_deps
                        (Cache (snd (GetRateLimits ex_deps ex_instance (take 0 ex_batch))))
                        (ex_batch ! 0)) of
               Inl err \<Rightarrow> RateLimit_Error (''while applying rate limit for ''
                            @ quoted (globalKey (ex_batch ! 0)) @ '' - '' @ quoted err)
             | Inr rl \<Rightarrow> rl)
        \<and> Metadata (resp ! 0) ''owner'' = None
        \<and> Metadata (resp ! 1) ''owner'' = Some ''down:81'')"
proof -
  have i0: "0 < length ex_batch" and i1: "1 < length ex_batch"
    by (simp_all add: ex_batch_facts)
  have o0: "isOwner \<lparr>host = ''self:81'', isOwner = True\<rparr>"
    and o1: "\<not> isOwner \<lparr>host = ''down:81'', isOwner = False\<rparr>"
    and h1: "host \<lparr>host = ''down:81'', isOwner = False\<rparr> = ''down:81''"
    by simp_all
  from GetRateLimits_owner_local_else_remote
         [OF ex_batch_facts(1) i0 ex_batch_owned(1) ex_batch_owned(2) ex_batch_owned(3)
             ex_deps_no_owner(1) ex_deps_no_owner(2)] o0 ex_batch_owned(4)
  obtain resp s' where r0: "GetRateLimits ex_deps ex_instance ex_batch = (Inr resp, s')"
    and c0: "calls (snd (GetRateLimits ex_deps ex_instance (take (Suc 0) ex_batch)))
            = calls (snd (GetRateLimits ex_deps ex_instance (take 0 ex_batch)))
                @ [Call_Get (globalKey (ex_batch ! 0)), Call_getRateLimit (ex_batch ! 0)]"
    and t0: "resp ! 0 =
            (case fst (tokenBucket ex_deps
                        (Cache (snd (GetRateLimits ex_deps ex_instance (take 0 ex_batch))))
                        (ex_batch ! 0)) of
               Inl err \<Rightarrow> RateLimit_Error (''while applying rate limit for ''
                            @ quoted (globalKey (ex_batch ! 0)) @ '' - '' @ quoted err)
             | Inr rl \<Rightarrow> rl)"
    and m0: "Metadata (resp ! 0) ''owner'' = None"
    by blast
  from GetRateLimits_owner_local_else_remote
         [OF ex_batch_facts(1) i1 ex_batch_facts(3) ex_batch_facts(4) ex_batch_facts(5)
             ex_deps_no_owner(1) ex_deps_no_owner(2)] o1
  obtain resp' s'' where "GetRateLimits ex_deps ex_instance ex_batch = (Inr resp', s'')"
    and "Metadata (resp' ! 1) ''owner''
           = Some (host \<lparr>host = ''down:81'', isOwner = False\<rparr>)"
    by blast
  with r0 h1 have m1: "Metadata (resp ! 1) ''owner'' = Some ''down:81''" by simp
  show ?thesis
    using r0 c0 t0 m0 m1 i0 i1 ex_batch_facts ex_batch_owned(1,2,3) by blast
qed

text \<open>
  The item of the batch that the instance owns: the token bucket has answered (nine remaining
  of ten), the cache has counted the call, and the calls made are the lookup and getRateLimit.
\<close>

lemma GetRateLimits_example_owned:
  "(case GetRateLimits ex_deps ex_instance (take 1 ex_batch) of
      (res, s') \<Rightarrow>
        (map (\<lambda>rl. (Limit rl, Remaining rl, Metadata rl ''owner''))
           (case res of Inr resp \<Rightarrow> resp | Inl e \<Rightarrow> []),
         Cache s', net s', calls s'))
   = ([(10, 9, None)], 1, 0, [Call_Get ''ns_kkk'', Call_getRateLimit (ex_batch ! 0)])"
  by (simp add: GetRateLimits_def maxBatchSize_def GetRateLimits_item_def ex_req_def ex_batch_def
      ex_instance_def ex_deps_def ex_Get_def globalKey_def getRateLimit_def log_call_def
      RateLimit_Error_def Let_def)

text \<open>
  C10.  The result of an item sent to a peer that is not the owner has the metadata
  \<open>{"owner": address of the peer}\<close> and nothing else, whether the remote call failed
  (the result is then the error result) or succeeded (the metadata of the peer's answer is
  replaced).
\<close>

theorem GetRateLimits_remote_metadata:
  assumes "length r \<le> maxBatchSize" and "i < length r"
    and "UniqueKey (r ! i) \<noteq> []" and "Namespace (r ! i) \<noteq> []"
    and "Picker_Get d (Picker s) (globalKey (r ! i)) = Inr peer" and "\<not> isOwner peer"
  shows "\<exists>resp s'. GetRateLimits d s r = (Inr resp, s')
     \<and> Metadata (resp ! i) = [''owner'' \<mapsto> host peer]
     \<and> resp ! i =
         (case fst (GetPeerRateLimit d peer (r ! i) (net (snd (GetRateLimits d s (take i r))))) of
            Inl err \<Rightarrow> RateLimit_Error (''while fetching rate limit ''
                         @ quoted (globalKey (r ! i)) @ '' from peer - '' @ quoted err)
          | Inr rl \<Rightarrow> rl)\<lparr>Metadata := [''owner'' \<mapsto> host peer]\<rparr>"
proof -
  let ?si = "snd (GetRateLimits d s (take i r))"
  let ?resp = "fst (GetRateLimits_loop d s r [])"
  have res: "GetRateLimits d s r = (Inr ?resp, snd (GetRateLimits_loop d s r []))"
    using assms(1) by (rule GetRateLimits_accepted)
  have si: "?si = snd (GetRateLimits_loop d s (take i r) [])"
    using assms(1) by (rule GetRateLimits_prefix_state)
  have pk: "Picker_Get d (Picker ?si) (globalKey (r ! i)) = Inr peer"
    using assms(5) by (simp add: si GetRateLimits_loop_Picker)
  have "?resp ! i = fst (GetRateLimits_item d ?si (r ! i))"
    using GetRateLimits_loop_nth(1)[OF assms(2), of d s] by (simp add: si)
  then have "?resp ! i =
         (case fst (GetPeerRateLimit d peer (r ! i) (net ?si)) of
            Inl err \<Rightarrow> RateLimit_Error (''while fetching rate limit ''
                         @ quoted (globalKey (r ! i)) @ '' from peer - '' @ quoted err)
          | Inr rl \<Rightarrow> rl)\<lparr>Metadata := [''owner'' \<mapsto> host peer]\<rparr>"
    by (simp add: GetRateLimits_item_remote[OF assms(3,4) pk assms(6)])
  moreover from this have "Metadata (?resp ! i) = [''owner'' \<mapsto> host peer]"
    by simp
  ultimately show ?thesis using res by blast
qed

theorem GetRateLimits_remote_metadata_witness:
  "length ex_batch \<le> maxBatchSize \<and> 1 < length ex_batch
   \<and> UniqueKey (ex_batch ! 1) \<noteq> [] \<and> Namespace (ex_batch ! 1) \<noteq> []
   \<and> Picker_Get ex_deps (Picker ex_instance) (globalKey (ex_batch ! 1))
       = Inr \<lparr>host = ''down:81'', isOwner = False\<rparr>
   \<and> \<not> isOwner \<lparr>host = ''down:81'', isOwner = False\<rparr>
   \<and> (\<exists>resp s'. GetRateLimits ex_deps ex_instance ex_batch = (Inr resp, s')
        \<and> Metadata (resp ! 1) = [''owner'' \<mapsto> ''down:81''])"
proof -
  have i: "1 < length ex_batch" by (simp add: ex_batch_facts)
  have o: "\<not> isOwner \<lparr>host = ''down:81'', isOwner = False\<rparr>" by simp
  from GetRateLimits_remote_metadata
         [OF ex_batch_facts(1) i ex_batch_facts(3) ex_batch_facts(4) ex_batch_facts(5) o]
  obtain resp s' where "GetRateLimits ex_deps ex_instance ex_batch = (Inr resp, s')"
    and "Metadata (resp ! 1) = [''owner'' \<mapsto> ''down:81'']"
    by auto
  then show ?thesis using i o ex_batch_facts by blast
qed

subsection \<open>GetPeerRateLimits and UpdatePeerGlobals\<close>

lemma GetPeerRateLimits_loop_append:
  "GetPeerRateLimits_loop d s (xs @ ys) resp =
     (case GetPeerRateLimits_loop d s xs resp of
        (resp', s') \<Rightarrow> GetPeerRateLimits_loop d s' ys resp')"
  by (induction xs arbitrary: s resp) (simp_all split: prod.splits)

lemma GetPeerRateLimits_loop_snoc:
  "GetPeerRateLimits_loop d s (xs @ [x]) [] =
     (fst (GetPeerRateLimits_loop d s xs [])
        @ [fst (GetPeerRateLimits_item d (snd (GetPeerRateLimits_loop d s xs [])) x)],
      snd (GetPeerRateLimits_item d (snd (GetPeerRateLimits_loop d s xs [])) x))"
  by (simp add: GetPeerRateLimits_loop_append split: prod.splits)

lemma GetPeerRateLimits_loop_length:
  "length (fst (GetPeerRateLimits_loop d s xs [])) = length xs"
  by (induction xs rule: rev_induct) (simp_all add: GetPeerRateLimits_loop_snoc)

lemma GetPeerRateLimits_item_eq:
  "GetPeerRateLimits_item d s req =
     ((case fst (getRateLimit d s req) of Inl err \<Rightarrow> RateLimit_Error err | Inr rl \<Rightarrow> rl),
      snd (getRateLimit d s req))"
  by (cases "getRateLimit d s req") (simp add: GetPeerRateLimits_item_def split: sum.splits)

lemma GetPeerRateLimits_loop_calls:
  "calls (snd (GetPeerRateLimits_loop d s xs [])) = calls s @ map Call_getRateLimit xs"
  by (induction xs rule: rev_induct)
     (simp_all add: GetPeerRateLimits_loop_snoc GetPeerRateLimits_item_eq getRateLimit_frame)

lemma GetPeerRateLimits_loop_frame:
  "Picker (snd (GetPeerRateLimits_loop d s xs [])) = Picker s"
  "net (snd (GetPeerRateLimits_loop d s xs [])) = net s"
  by (induction xs rule: rev_induct)
     (simp_all add: GetPeerRateLimits_loop_snoc GetPeerRateLimits_item_eq getRateLimit_frame)

lemma GetPeerRateLimits_loop_take:
  "i \<le> length xs \<Longrightarrow>
     fst (GetPeerRateLimits_loop d s (take i xs) [])
       = take i (fst (GetPeerRateLimits_loop d s xs []))"
proof (induction xs rule: rev_induct)
  case Nil
  then show ?case by simp
next
  case (snoc x xs)
  show ?case
  proof (cases "i \<le> length xs")
    case True
    then show ?thesis using snoc.IH
      by (simp add: GetPeerRateLimits_loop_snoc GetPeerRateLimits_loop_length)
  next
    case False
    with snoc.prems have "i = Suc (length xs)" by simp
    then show ?thesis
      by (simp add: GetPeerRateLimits_loop_length GetPeerRateLimits_loop_snoc)
  qed
qed

lemma GetPeerRateLimits_loop_nth:
  assumes "i < length xs"
  shows "fst (GetPeerRateLimits_loop d s xs []) ! i =
           fst (GetPeerRateLimits_item d (snd (GetPeerRateLimits_loop d s (take i xs) [])) (xs ! i))"
proof -
  have t: "take (Suc i) xs = take i xs @ [xs ! i]"
    using assms by (simp add: take_Suc_conv_app_nth)
  have "fst (GetPeerRateLimits_loop d s (take (Suc i) xs) [])
          = take (Suc i) (fst (GetPeerRateLimits_loop d s xs []))"
    using assms by (intro GetPeerRateLimits_loop_take) simp
  then have "fst (GetPeerRateLimits_loop d s (take (Suc i) xs) []) ! i
          = fst (GetPeerRateLimits_loop d s xs []) ! i"
    by simp
  moreover have "fst (GetPeerRateLimits_loop d s (take (Suc i) xs) []) ! i
      = fst (GetPeerRateLimits_item d (snd (GetPeerRateLimits_loop d s (take i xs) [])) (xs ! i))"
    using assms unfolding t GetPeerRateLimits_loop_snoc
    by (simp add: nth_append GetPeerRateLimits_loop_length)
  ultimately show ?thesis by simp
qed

lemma GetPeerRateLimits_accepted:
  "length r \<le> maxBatchSize \<Longrightarrow>
     GetPeerRateLimits d s r =
       (Inr (fst (GetPeerRateLimits_loop d s r [])), snd (GetPeerRateLimits_loop d s r []))"
  by (simp add: GetPeerRateLimits_def split: prod.splits)

text \<open>
  C9.  In a batch that GetPeerRateLimits accepts, every request goes to getRateLimit and
  nowhere else: the calls made are one getRateLimit for each request, in order, with no
  lookup of an owner and no remote call, and the result at position \<open>i\<close> is what
  getRateLimit returned for request \<open>i\<close> (its error as an error result).  Nothing depends
  on the namespace or the unique key: a request with an empty field that names the token
  bucket or the leaky bucket gets the answer of that algorithm.
\<close>

theorem GetPeerRateLimits_no_validation:
  assumes "length r \<le> maxBatchSize"
  shows "\<exists>resp s'. GetPeerRateLimits d s r = (Inr resp, s') \<and> length resp = length r
     \<and> calls s' = calls s @ map Call_getRateLimit r
     \<and> (\<forall>i<length r.
           resp ! i = (case fst (getRateLimit d (snd (GetPeerRateLimits d s (take i r))) (r ! i)) of
                         Inl err \<Rightarrow> RateLimit_Error err
                       | Inr rl \<Rightarrow> rl)
         \<and> (Algorithm (r ! i) = Algorithm_TOKEN_BUCKET \<longrightarrow>
              resp ! i = (case fst (tokenBucket d
                                     (Cache (snd (GetPeerRateLimits d s (take i r)))) (r ! i)) of
                            Inl err \<Rightarrow> RateLimit_Error err
                          | Inr rl \<Rightarrow> rl))
         \<and> (Algorithm (r ! i) = Algorithm_LEAKY_BUCKET \<longrightarrow>
              resp ! i = (case fst (leakyBucket d
                                     (Cache (snd (GetPeerRateLimits d s (take i r)))) (r ! i)) of
                            Inl err \<Rightarrow> RateLimit_Error err
                          | Inr rl \<Rightarrow> rl)))"
proof -
  let ?resp = "fst (GetPeerRateLimits_loop d s r [])"
  let ?s' = "snd (GetPeerRateLimits_loop d s r [])"
  have res: "GetPeerRateLimits d s r = (Inr ?resp, ?s')"
    using assms by (rule GetPeerRateLimits_accepted)
  have len: "length ?resp = length r"
    by (rule GetPeerRateLimits_loop_length)
  have cs: "calls ?s' = calls s @ map Call_getRateLimit r"
    by (rule GetPeerRateLimits_loop_calls)
  have item: "?resp ! i =
        (case fst (getRateLimit d (snd (GetPeerRateLimits d s (take i r))) (r ! i)) of
           Inl err \<Rightarrow> RateLimit_Error err | Inr rl \<Rightarrow> rl)"
    if "i < length r" for i
    using GetPeerRateLimits_loop_nth[OF that, of d s] assms
    by (simp add: GetPeerRateLimits_accepted GetPeerRateLimits_item_eq)
  have tok: "?resp ! i =
        (case fst (tokenBucket d (Cache (snd (GetPeerRateLimits d s (take i r)))) (r ! i)) of
           Inl err \<Rightarrow> RateLimit_Error err | Inr rl \<Rightarrow> rl)"
    if "i < length r" "Algorithm (r ! i) = Algorithm_TOKEN_BUCKET" for i
    using item[OF that(1)] by (simp add: getRateLimit_buckets(1)[OF that(2)])
  have leak: "?resp ! i =
        (case fst (leakyBucket d (Cache (snd (GetPeerRateLimits d s (take i r)))) (r ! i)) of
           Inl err \<Rightarrow> RateLimit_Error err | Inr rl \<Rightarrow> rl)"
    if "i < length r" "Algorithm (r ! i) = Algorithm_LEAKY_BUCKET" for i
    using item[OF that(1)] by (simp add: getRateLimit_buckets(2)[OF that(2)])
  show ?thesis
    using res len cs item tok leak by blast
qed

theorem GetPeerRateLimits_no_validation_witness:
  "length ex_batch \<le> maxBatchSize
   \<and> (\<exists>resp s'. GetPeerRateLimits ex_deps ex_instance ex_batch = (Inr resp, s')
        \<and> length resp = length ex_batch
        \<and> calls s' = calls ex_instance @ map Call_getRateLimit ex_batch)"
proof -
  from GetPeerRateLimits_no_validation [OF ex_batch_facts(1), of ex_deps ex_instance]
  obtain resp s' where "GetPeerRateLimits ex_deps ex_instance ex_batch = (Inr resp, s')"
    and "length resp = length ex_batch"
    and "calls s' = calls ex_instance @ map Call_getRateLimit ex_batch"
    by auto
  then show ?thesis using ex_batch_facts(1) by blast
qed

text \<open>
  The batch of three through GetPeerRateLimits: the request without a namespace gets the
  answer of the token bucket, where GetRateLimits gives it a validation error.
\<close>

lemma GetPeerRateLimits_example:
  "map (\<lambda>rl. (Remaining rl, Error rl))
     (case fst (GetPeerRateLimits ex_deps ex_instance ex_batch) of
        Inr resp \<Rightarrow> resp | Inl e \<Rightarrow> [])
   = [(9, []), (8, []), (7, [])]"
  by (simp add: GetPeerRateLimits_def maxBatchSize_def GetPeerRateLimits_item_def ex_req_def
      ex_batch_def ex_instance_def ex_deps_def getRateLimit_def log_call_def)

text \<open>
  C8 (as the code has it).  UpdatePeerGlobals leaves the instance as it is and returns a nil
  response with a nil error.
\<close>

theorem UpdatePeerGlobals_nil:
  "UpdatePeerGlobals s r = ((None, None), s)"
  by (simp add: UpdatePeerGlobals_def)

text \<open>
  C8 as stated asks for a response that is not nil; the response of UpdatePeerGlobals is nil.
\<close>

theorem UpdatePeerGlobals_response_counterexample:
  "\<not> (fst (fst (UpdatePeerGlobals ex_instance ())) \<noteq> (None :: unit option))"
  by (simp add: UpdatePeerGlobals_def)


subsection \<open>updatePeers\<close>

lemma updatePeers_loop_append:
  "updatePeers_loop d s (xs @ ys) p e n =
     (case updatePeers_loop d s xs p e n of (p', e', n') \<Rightarrow> updatePeers_loop d s ys p' e' n')"
  by (induction xs arbitrary: p e n) (simp_all add: Let_def split: prod.splits sum.splits)

lemma updatePeers_loop_errs_snoc:
  "fst (snd (updatePeers_loop d s (xs @ [a]) p e n)) =
     fst (snd (updatePeers_loop d s xs p e n))
       @ (case fst (NewPeerClient d a (snd (snd (updatePeers_loop d s xs p e n)))) of
            Inl err \<Rightarrow> [connect_failure a] | Inr h \<Rightarrow> [])"
  by (simp add: updatePeers_loop_append Let_def split: prod.splits sum.splits)

lemma updatePeers_loop_net_snoc:
  "snd (snd (updatePeers_loop d s (xs @ [a]) p e n)) =
     snd (NewPeerClient d a (snd (snd (updatePeers_loop d s xs p e n))))"
  by (simp add: updatePeers_loop_append Let_def split: prod.splits sum.splits)

lemma updatePeers_loop_picker_snoc:
  "fst (updatePeers_loop d s (xs @ [a]) p e n) =
     (case fst (NewPeerClient d a (snd (snd (updatePeers_loop d s xs p e n)))) of
        Inl err \<Rightarrow> fst (updatePeers_loop d s xs p e n)
      | Inr h \<Rightarrow> Picker_Add d (fst (updatePeers_loop d s xs p e n))
          (let h1 = (case Picker_GetPeer d (Picker s) a of Some info \<Rightarrow> info | None \<Rightarrow> h)
           in if a = AdvertiseAddress s then h1\<lparr>isOwner := True\<rparr> else h1))"
  by (simp add: updatePeers_loop_append Let_def split: prod.splits sum.splits)

lemma updatePeers_loop_failed:
  "i < length xs \<Longrightarrow>
   fst (NewPeerClient d (xs ! i) (snd (snd (updatePeers_loop d s (take i xs) p [] n)))) = Inl err \<Longrightarrow>
     connect_failure (xs ! i) \<in> set (fst (snd (updatePeers_loop d s xs p [] n)))"
proof (induction xs rule: rev_induct)
  case Nil
  then show ?case by simp
next
  case (snoc a xs)
  show ?case
  proof (cases "i < length xs")
    case True
    with snoc show ?thesis
      by (simp add: updatePeers_loop_errs_snoc nth_append)
  next
    case False
    with snoc.prems have "i = length xs" by simp
    with snoc.prems show ?thesis
      by (simp add: updatePeers_loop_errs_snoc)
  qed
qed

lemma updatePeers_loop_no_failure:
  "(\<And>i. i < length xs \<Longrightarrow>
      \<exists>h. fst (NewPeerClient d (xs ! i) (snd (snd (updatePeers_loop d s (take i xs) p [] n)))) = Inr h)
   \<Longrightarrow> fst (snd (updatePeers_loop d s xs p [] n)) = []"
proof (induction xs rule: rev_induct)
  case Nil
  then show ?case by simp
next
  case (snoc a xs)
  have "\<exists>h. fst (NewPeerClient d (xs ! i) (snd (snd (updatePeers_loop d s (take i xs) p [] n)))) = Inr h"
    if "i < length xs" for i
    using snoc.prems[of i] that by (simp add: nth_append)
  then have e: "fst (snd (updatePeers_loop d s xs p [] n)) = []"
    by (rule snoc.IH)
  from snoc.prems[of "length xs"]
  obtain h where "fst (NewPeerClient d a (snd (snd (updatePeers_loop d s xs p [] n)))) = Inr h"
    by auto
  with e show ?case
    by (simp add: updatePeers_loop_errs_snoc)
qed

lemma updatePeers_loop_built:
  "\<exists>hs. fst (updatePeers_loop d s xs p [] n) = foldl (Picker_Add d) p hs
        \<and> length hs + length (fst (snd (updatePeers_loop d s xs p [] n))) = length xs"
proof (induction xs rule: rev_induct)
  case Nil
  show ?case by (rule exI[of _ "[]"]) simp
next
  case (snoc a xs)
  then obtain hs where hs: "fst (updatePeers_loop d s xs p [] n) = foldl (Picker_Add d) p hs"
    "length hs + length (fst (snd (updatePeers_loop d s xs p [] n))) = length xs"
    by blast
  show ?case
  proof (cases "fst (NewPeerClient d a (snd (snd (updatePeers_loop d s xs p [] n))))")
    case (Inl err)
    with hs show ?thesis
      by (intro exI[of _ hs]) (simp add: updatePeers_loop_picker_snoc updatePeers_loop_errs_snoc)
  next
    case (Inr h)
    let ?h = "(let h1 = (case Picker_GetPeer d (Picker s) a of Some info \<Rightarrow> info | None \<Rightarrow> h)
           in if a = AdvertiseAddress s then h1\<lparr>isOwner := True\<rparr> else h1)"
    from Inr hs show ?thesis
      by (intro exI[of _ "hs @ [?h]"])
         (simp add: updatePeers_loop_picker_snoc updatePeers_loop_errs_snoc)
  qed
qed

lemma Picker_Size_foldl:
  assumes "\<And>p h. Picker_Size d (Picker_Add d p h) = Picker_Size d p + 1"
  shows "Picker_Size d (foldl (Picker_Add d) p hs) = Picker_Size d p + int (length hs)"
  by (induction hs rule: rev_induct) (simp_all add: assms)

lemma sublist_Join:
  "x \<in> set xs \<Longrightarrow> sublist x (Join xs sep)"
proof (induction xs sep rule: Join.induct)
  case (1 sep)
  then show ?case by simp
next
  case (2 y sep)
  then show ?case by simp
next
  case (3 y z zs sep)
  show ?case
  proof (cases "x = y")
    case True
    then show ?thesis by simp
  next
    case False
    with 3 have "sublist x (Join (z # zs) sep)" by simp
    then obtain ps ss where "Join (z # zs) sep = ps @ x @ ss"
      by (auto simp: sublist_def)
    then have "Join (y # z # zs) sep = (y @ sep @ ps) @ x @ ss" by simp
    then show ?thesis unfolding sublist_def by blast
  qed
qed

lemma sublist_connect_failure: "sublist a (connect_failure a)"
proof -
  have "connect_failure a =
      (''failed to connect to peer '' @ [CHR 0x27]) @ a
        @ ([CHR 0x27] @ ''; consistent hash is incomplete'')"
    by (simp add: connect_failure_def quoted_def)
  then show ?thesis unfolding sublist_def by blast
qed

lemma sublist_trans': "sublist a b \<Longrightarrow> sublist b c \<Longrightarrow> sublist a c"
  by (rule sublist_order.order.trans)

lemma Healthy_neq_UnHealthy: "Healthy \<noteq> UnHealthy"
  by (simp add: Healthy_def UnHealthy_def)

lemma updatePeers_sel:
  "Picker (updatePeers d s conf) = fst (updatePeers_loop d s conf (Picker_New d (Picker s)) [] (net s))"
  "net (updatePeers d s conf) = snd (snd (updatePeers_loop d s conf (Picker_New d (Picker s)) [] (net s)))"
  "AdvertiseAddress (updatePeers d s conf) = AdvertiseAddress s"
  "Cache (updatePeers d s conf) = Cache s"
  "calls (updatePeers d s conf) = calls s"
  "Status (health (updatePeers d s conf)) =
     (if fst (snd (updatePeers_loop d s conf (Picker_New d (Picker s)) [] (net s))) = []
      then Healthy else UnHealthy)"
  "Message (health (updatePeers d s conf)) =
     (if fst (snd (updatePeers_loop d s conf (Picker_New d (Picker s)) [] (net s))) = []
      then Message (health s)
      else Join (fst (snd (updatePeers_loop d s conf (Picker_New d (Picker s)) [] (net s)))) ''|'')"
  "PeerCount (health (updatePeers d s conf)) =
     int32 (Picker_Size d (fst (updatePeers_loop d s conf (Picker_New d (Picker s)) [] (net s))))"
  by (simp_all add: updatePeers_def Let_def split: prod.splits)

lemma int32_in_range:
  "- (2 ^ 31) \<le> n \<Longrightarrow> n < 2 ^ 31 \<Longrightarrow> sint (int32 n) = n"
  unfolding int32_def by (simp add: sint_sbintrunc' signed_take_bit_int_eq_self)

text \<open>
  C3.  updatePeers always installs the picker it has built, made with New from the current
  one and one Add for each address that connected.  After it the status is UnHealthy exactly
  when NewPeerClient failed for some address of the list, and Healthy otherwise, whatever the
  health was before; the message then contains every address that failed; PeerCount is the
  Size of the new picker converted to int32, which is that size whenever it fits in 32 bits.
  An address \<open>conf ! i\<close> is connected in the network state left by the addresses before
  it, which is the network after updatePeers on the first \<open>i\<close> addresses.
\<close>

theorem updatePeers_health:
  "(\<exists>hs. Picker (updatePeers d s conf) = foldl (Picker_Add d) (Picker_New d (Picker s)) hs
         \<and> length hs \<le> length conf)
   \<and> (Status (health (updatePeers d s conf)) = UnHealthy \<longleftrightarrow>
        (\<exists>i<length conf. \<exists>e.
           fst (NewPeerClient d (conf ! i) (net (updatePeers d s (take i conf)))) = Inl e))
   \<and> (Status (health (updatePeers d s conf)) = Healthy \<longleftrightarrow>
        \<not> (\<exists>i<length conf. \<exists>e.
           fst (NewPeerClient d (conf ! i) (net (updatePeers d s (take i conf)))) = Inl e))
   \<and> (\<forall>i<length conf.
        (\<exists>e. fst (NewPeerClient d (conf ! i) (net (updatePeers d s (take i conf)))) = Inl e)
        \<longrightarrow> sublist (conf ! i) (Message (health (updatePeers d s conf))))
   \<and> PeerCount (health (updatePeers d s conf)) = int32 (Picker_Size d (Picker (updatePeers d s conf)))
   \<and> (- (2 ^ 31) \<le> Picker_Size d (Picker (updatePeers d s conf))
        \<and> Picker_Size d (Picker (updatePeers d s conf)) < 2 ^ 31
      \<longrightarrow> sint (PeerCount (health (updatePeers d s conf)))
            = Picker_Size d (Picker (updatePeers d s conf)))"
proof -
  let ?p = "Picker_New d (Picker s)"
  let ?errs = "fst (snd (updatePeers_loop d s conf ?p [] (net s)))"
  let ?fails = "\<exists>i<length conf. \<exists>e.
           fst (NewPeerClient d (conf ! i) (net (updatePeers d s (take i conf)))) = Inl e"
  have built: "\<exists>hs. Picker (updatePeers d s conf) = foldl (Picker_Add d) ?p hs
         \<and> length hs \<le> length conf"
    using updatePeers_loop_built[of d s conf ?p "net s"]
    by (auto simp: updatePeers_sel)
  have member: "connect_failure (conf ! i) \<in> set ?errs"
    if "i < length conf"
      and "fst (NewPeerClient d (conf ! i) (net (updatePeers d s (take i conf)))) = Inl e" for i e
    using that by (simp add: updatePeers_sel updatePeers_loop_failed)
  have errs: "?errs \<noteq> [] \<longleftrightarrow> ?fails"
  proof
    assume ne: "?errs \<noteq> []"
    show ?fails
    proof (rule ccontr)
      assume nf: "\<not> ?fails"
      have "\<exists>h. fst (NewPeerClient d (conf ! i)
              (snd (snd (updatePeers_loop d s (take i conf) ?p [] (net s))))) = Inr h"
        if "i < length conf" for i
        using nf that
        by (cases "fst (NewPeerClient d (conf ! i)
              (snd (snd (updatePeers_loop d s (take i conf) ?p [] (net s)))))")
           (auto simp: updatePeers_sel)
      then have "?errs = []" by (rule updatePeers_loop_no_failure)
      with ne show False by simp
    qed
  next
    assume ?fails
    then obtain i e where "i < length conf"
      and "fst (NewPeerClient d (conf ! i) (net (updatePeers d s (take i conf)))) = Inl e"
      by blast
    then have "connect_failure (conf ! i) \<in> set ?errs" by (rule member)
    then show "?errs \<noteq> []" by auto
  qed
  have st: "Status (health (updatePeers d s conf)) = (if ?errs = [] then Healthy else UnHealthy)"
    by (rule updatePeers_sel(6))
  have unhealthy: "Status (health (updatePeers d s conf)) = UnHealthy \<longleftrightarrow> ?fails"
  proof (cases "?errs = []")
    case True
    then have "Status (health (updatePeers d s conf)) \<noteq> UnHealthy"
      unfolding st using Healthy_neq_UnHealthy by simp
    moreover from True errs have "\<not> ?fails" by blast
    ultimately show ?thesis by blast
  next
    case False
    then have "Status (health (updatePeers d s conf)) = UnHealthy"
      unfolding st by simp
    moreover from False errs have ?fails by blast
    ultimately show ?thesis by blast
  qed
  have healthy: "Status (health (updatePeers d s conf)) = Healthy \<longleftrightarrow> \<not> ?fails"
  proof (cases "?errs = []")
    case True
    then have "Status (health (updatePeers d s conf)) = Healthy"
      unfolding st by simp
    moreover from True errs have "\<not> ?fails" by blast
    ultimately show ?thesis by blast
  next
    case False
    then have "Status (health (updatePeers d s conf)) \<noteq> Healthy"
      unfolding st using Healthy_neq_UnHealthy by simp
    moreover from False errs have ?fails by blast
    ultimately show ?thesis by blast
  qed
  have msg: "sublist (conf ! i) (Message (health (updatePeers d s conf)))"
    if i: "i < length conf"
      and f: "\<exists>e. fst (NewPeerClient d (conf ! i) (net (updatePeers d s (take i conf)))) = Inl e"
    for i
  proof -
    from f obtain e where
      "fst (NewPeerClient d (conf ! i) (net (updatePeers d s (take i conf)))) = Inl e" ..
    with i have m: "connect_failure (conf ! i) \<in> set ?errs" by (rule member)
    then have "?errs \<noteq> []" by auto
    then have "Message (health (updatePeers d s conf)) = Join ?errs ''|''"
      by (simp add: updatePeers_sel)
    moreover have "sublist (connect_failure (conf ! i)) (Join ?errs ''|'')"
      using m by (rule sublist_Join)
    ultimately show ?thesis
      using sublist_trans'[OF sublist_connect_failure] by simp
  qed
  have count: "PeerCount (health (updatePeers d s conf))
      = int32 (Picker_Size d (Picker (updatePeers d s conf)))"
    by (simp add: updatePeers_sel)
  have range: "sint (PeerCount (health (updatePeers d s conf)))
            = Picker_Size d (Picker (updatePeers d s conf))"
    if "- (2 ^ 31) \<le> Picker_Size d (Picker (updatePeers d s conf))
        \<and> Picker_Size d (Picker (updatePeers d s conf)) < 2 ^ 31"
    using that unfolding count by (simp add: int32_in_range)
  show ?thesis
    using built unhealthy healthy msg count range by blast
qed

lemma ex_peers_rebuild:
  "fst (NewPeerClient ex_deps (ex_peers ! 1) (net (updatePeers ex_deps ex_instance (take 1 ex_peers))))
     = Inl ''dial failed''"
  "Picker (updatePeers ex_deps ex_instance ex_peers)
     = [\<lparr>host = ''self:81'', isOwner = True\<rparr>, \<lparr>host = ''new:81'', isOwner = False\<rparr>]"
  "Picker_Size ex_deps [\<lparr>host = ''self:81'', isOwner = True\<rparr>, \<lparr>host = ''new:81'', isOwner = False\<rparr>]
     = 2"
  by (simp_all add: updatePeers_def ex_peers_def ex_deps_def ex_instance_def Let_def)

theorem updatePeers_health_witness:
  "1 < length ex_peers
   \<and> fst (NewPeerClient ex_deps (ex_peers ! 1)
            (net (updatePeers ex_deps ex_instance (take 1 ex_peers)))) = Inl ''dial failed''
   \<and> Status (health (updatePeers ex_deps ex_instance ex_peers)) = UnHealthy
   \<and> sublist (ex_peers ! 1) (Message (health (updatePeers ex_deps ex_instance ex_peers)))
   \<and> sint (PeerCount (health (updatePeers ex_deps ex_instance ex_peers))) = 2"
proof -
  have i: "1 < length ex_peers" by (simp add: ex_peers_def)
  note t = updatePeers_health [of ex_deps ex_instance ex_peers]
  have "Status (health (updatePeers ex_deps ex_instance ex_peers)) = UnHealthy"
    using t i ex_peers_rebuild(1) by blast
  moreover have "sublist (ex_peers ! 1) (Message (health (updatePeers ex_deps ex_instance ex_peers)))"
    using t i ex_peers_rebuild(1) by blast
  moreover have "sint (PeerCount (health (updatePeers ex_deps ex_instance ex_peers))) = 2"
    using t by (simp add: ex_peers_rebuild(2,3) int32_def)
  ultimately show ?thesis using i ex_peers_rebuild(1) by blast
qed

text \<open>
  C7.  For a picker whose Size is 0 after New and grows by one with each Add: when every
  address of a membership list connects, in a first rebuild and in a second one with the
  same list right after it, both rebuilds leave a picker of the same Size (the length of the
  list) and the status Healthy.
\<close>

theorem updatePeers_idempotent:
  fixes d :: "('a, 'c, 'p, 'n) Deps" and s :: "('a, 'c, 'p, 'n) Instance"
  assumes "\<forall>p. Picker_Size d (Picker_New d p) = 0"
    and "\<forall>p h. Picker_Size d (Picker_Add d p h) = Picker_Size d p + 1"
    and "\<forall>i<length conf. \<exists>h.
           fst (NewPeerClient d (conf ! i) (net (updatePeers d s (take i conf)))) = Inr h"
    and "\<forall>i<length conf. \<exists>h.
           fst (NewPeerClient d (conf ! i)
                 (net (updatePeers d (updatePeers d s conf) (take i conf)))) = Inr h"
  shows "Picker_Size d (Picker (updatePeers d (updatePeers d s conf) conf))
           = Picker_Size d (Picker (updatePeers d s conf))
       \<and> Picker_Size d (Picker (updatePeers d s conf)) = int (length conf)
       \<and> Status (health (updatePeers d s conf)) = Healthy
       \<and> Status (health (updatePeers d (updatePeers d s conf) conf)) = Healthy"
proof -
  have rebuild: "Picker_Size d (Picker (updatePeers d t conf)) = int (length conf)
       \<and> Status (health (updatePeers d t conf)) = Healthy"
    if ok: "\<forall>i<length conf. \<exists>h.
           fst (NewPeerClient d (conf ! i) (net (updatePeers d t (take i conf)))) = Inr h"
    for t :: "('a, 'c, 'p, 'n) Instance"
  proof -
    let ?p = "Picker_New d (Picker t)"
    have e: "fst (snd (updatePeers_loop d t conf ?p [] (net t))) = []"
      using ok by (intro updatePeers_loop_no_failure) (simp add: updatePeers_sel)
    obtain hs where hs: "fst (updatePeers_loop d t conf ?p [] (net t)) = foldl (Picker_Add d) ?p hs"
      "length hs + length (fst (snd (updatePeers_loop d t conf ?p [] (net t)))) = length conf"
      using updatePeers_loop_built[of d t conf ?p "net t"] by blast
    have "Picker_Size d (foldl (Picker_Add d) ?p hs) = Picker_Size d ?p + int (length hs)"
      using assms(2) by (intro Picker_Size_foldl) simp
    with hs e assms(1) have "Picker_Size d (Picker (updatePeers d t conf)) = int (length conf)"
      by (simp add: updatePeers_sel)
    moreover have "Status (health (updatePeers d t conf)) = Healthy"
      using e by (simp add: updatePeers_sel)
    ultimately show ?thesis by simp
  qed
  from rebuild[OF assms(3)] rebuild[OF assms(4)] show ?thesis by simp
qed

lemma ex_connects:
  "a \<noteq> ''bad:81'' \<Longrightarrow> \<exists>h. fst (NewPeerClient ex_deps a n) = Inr h"
  by (simp add: ex_deps_def)

lemma ex_peers_up_nth: "i < length ex_peers_up \<Longrightarrow> ex_peers_up ! i \<noteq> ''bad:81''"
  by (auto simp: ex_peers_up_def less_Suc_eq numeral_2_eq_2)

theorem updatePeers_idempotent_witness:
  "(\<forall>p. Picker_Size ex_deps (Picker_New ex_deps p) = 0)
   \<and> (\<forall>p h. Picker_Size ex_deps (Picker_Add ex_deps p h) = Picker_Size ex_deps p + 1)
   \<and> Picker_Size ex_deps
        (Picker (updatePeers ex_deps (updatePeers ex_deps ex_instance ex_peers_up) ex_peers_up))
       = Picker_Size ex_deps (Picker (updatePeers ex_deps ex_instance ex_peers_up))
   \<and> Picker_Size ex_deps (Picker (updatePeers ex_deps ex_instance ex_peers_up)) = 2
   \<and> Status (health (updatePeers ex_deps ex_instance ex_peers_up)) = Healthy
   \<and> Status (health (updatePeers ex_deps (updatePeers ex_deps ex_instance ex_peers_up) ex_peers_up))
       = Healthy"
proof -
  have n: "\<forall>p. Picker_Size ex_deps (Picker_New ex_deps p) = 0"
    by (simp add: ex_deps_def)
  have a: "\<forall>p h. Picker_Size ex_deps (Picker_Add ex_deps p h) = Picker_Size ex_deps p + 1"
    by (simp add: ex_deps_def)
  have c1: "\<forall>i<length ex_peers_up. \<exists>h.
      fst (NewPeerClient ex_deps (ex_peers_up ! i)
            (net (updatePeers ex_deps ex_instance (take i ex_peers_up)))) = Inr h"
    using ex_connects ex_peers_up_nth by blast
  have c2: "\<forall>i<length ex_peers_up. \<exists>h.
      fst (NewPeerClient ex_deps (ex_peers_up ! i)
            (net (updatePeers ex_deps (updatePeers ex_deps ex_instance ex_peers_up)
                   (take i ex_peers_up)))) = Inr h"
    using ex_connects ex_peers_up_nth by blast
  have l: "int (length ex_peers_up) = 2" by (simp add: ex_peers_up_def)
  from updatePeers_idempotent [OF n a c1 c2] n a l show ?thesis by simp
qed

text \<open>
  A rebuild with the failing address, then one with a shorter list that connects: the status
  is Healthy again and the count is that of the shorter list.
\<close>

lemma updatePeers_example_reverts:
  "Status (health (updatePeers ex_deps (updatePeers ex_deps ex_instance ex_peers) [''self:81'']))
     = Healthy
   \<and> sint (PeerCount (health
        (updatePeers ex_deps (updatePeers ex_deps ex_instance ex_peers) [''self:81'']))) = 1"
  by (simp add: updatePeers_def ex_peers_def ex_deps_def ex_instance_def Let_def int32_def)


subsection \<open>Start\<close>

lemma retry_2:
  "retry 2 sleep callback s =
     (case callback s of
        (None, s1) \<Rightarrow> (None, s1)
      | (Some e, s1) \<Rightarrow>
          (case callback (sleep s1) of
             (None, s2) \<Rightarrow> (None, s2)
           | (Some e', s2) \<Rightarrow> (Some e', sleep s2)))"
  by (simp add: retry_def retry_loop.simps[of 0] retry_loop.simps[of 1] retry_loop.simps[of 2]
      split: prod.splits option.splits)

lemma probe_eq:
  "probe d s = (fst (HealthCheck_probe d (net s)),
                s\<lparr>calls := calls s @ [Call_HealthCheck], net := snd (HealthCheck_probe d (net s))\<rparr>)"
  by (simp add: probe_def log_call_def split: prod.splits)

lemma Start_probes:
  assumes "HealthCheck_probe d (net s) = (e1, n1)" and "HealthCheck_probe d n1 = (e2, n2)"
  shows "retry 2 (log_call Call_Sleep) (probe d) s =
     (if e1 = None then (None, s\<lparr>calls := calls s @ [Call_HealthCheck], net := n1\<rparr>)
      else if e2 = None then
        (None, s\<lparr>calls := calls s @ [Call_HealthCheck, Call_Sleep, Call_HealthCheck], net := n2\<rparr>)
      else
        (e2, s\<lparr>calls := calls s @ [Call_HealthCheck, Call_Sleep, Call_HealthCheck, Call_Sleep],
              net := n2\<rparr>))"
  using assms
  by (cases e1; cases e2) (simp_all add: retry_2 probe_eq log_call_def)

lemma Start_eq:
  assumes "Cache_Start d (Cache s) = (None, c)"
    and "Metrics_Start d (net s) = (None, n0)"
    and "HealthCheck_probe d n0 = (e1, n1)"
    and "HealthCheck_probe d n1 = (e2, n2)"
  shows "Start d serve s =
    (let probes = (if e1 = None then [Call_HealthCheck]
                   else if e2 = None then [Call_HealthCheck, Call_Sleep, Call_HealthCheck]
                   else [Call_HealthCheck, Call_Sleep, Call_HealthCheck, Call_Sleep]);
         n = (if e1 = None then n1 else n2);
         s3 = s\<lparr>calls := calls s @ [Call_Cache_Start, Call_Metrics_Start] @ probes,
                Cache := c, net := n\<rparr>
     in case (case serve of Some e \<Rightarrow> e | None \<Rightarrow> if e1 = None then None else e2) of
          Some err \<Rightarrow> (Some (Wrap err ''while waiting for server to pass health check''), s3)
        | None \<Rightarrow>
            (map_option (\<lambda>err. Wrap err ''failed to sync configs with other peers'')
               (fst (PeerSyncer_Start d (AdvertiseAddress s) n)),
             s3\<lparr>calls := calls s3 @ [Call_PeerSyncer_Start (AdvertiseAddress s)],
                net := snd (PeerSyncer_Start d (AdvertiseAddress s) n)\<rparr>))"
proof -
  define s2 where
    "s2 = (log_call Call_Metrics_Start ((log_call Call_Cache_Start s)\<lparr>Cache := c\<rparr>))\<lparr>net := n0\<rparr>"
  have p: "HealthCheck_probe d (net s2) = (e1, n1)"
    using assms(3) by (simp add: s2_def)
  have st: "Start d serve s =
      (case retry 2 (log_call Call_Sleep) (probe d) s2 of
         (r, s3) \<Rightarrow>
           (case (case serve of Some e \<Rightarrow> e | None \<Rightarrow> r) of
              Some err \<Rightarrow>
                (Some (Wrap err ''while waiting for server to pass health check''), s3)
            | None \<Rightarrow>
                (let s4 = log_call (Call_PeerSyncer_Start (AdvertiseAddress s3)) s3 in
                 case PeerSyncer_Start d (AdvertiseAddress s4) (net s4) of
                   (Some err, n') \<Rightarrow>
                     (Some (Wrap err ''failed to sync configs with other peers''),
                      s4\<lparr>net := n'\<rparr>)
                 | (None, n') \<Rightarrow> (None, s4\<lparr>net := n'\<rparr>))))"
    unfolding Start_def Let_def s2_def using assms(1,2) by (simp add: log_call_def)
  show ?thesis
    unfolding st Start_probes[OF p assms(4)]
    by (cases "PeerSyncer_Start d (AdvertiseAddress s) (if e1 = None then n1 else n2)")
       (auto simp: s2_def Let_def log_call_def split: option.splits)
qed

text \<open>
  Start with the cache and the metrics collector started, \<open>e1\<close> and \<open>e2\<close> the
  outcomes of a first and of a second health probe of the listener, and Serve not having
  returned nil (it returns nil only when the server is stopped).  Among the calls Start
  makes, the health probe occurs at most twice, and PeerSyncer.Start occurs only when a probe
  has succeeded, with the advertise address, as the last call.  While the server keeps
  serving: if the first probe succeeds the calls are one probe and the registration; if the
  first fails and the second succeeds they are the two probes with one sleep between and the
  registration, and Start returns what the registration returns; in both cases there is no
  further probe.  If both probes fail, Start returns an error and the calls end with the
  second sleep: the registration is not made.
\<close>

lemma Start_unless_stopped:
  assumes "Cache_Start d (Cache s) = (None, c)"
    and "Metrics_Start d (net s) = (None, n0)"
    and "HealthCheck_probe d n0 = (e1, n1)"
    and "HealthCheck_probe d n1 = (e2, n2)"
    and "serve \<noteq> Some None"
  shows "\<exists>r s' new. Start d serve s = (r, s') \<and> calls s' = calls s @ new
     \<and> length (filter (\<lambda>c. c = Call_HealthCheck) new) \<le> 2
     \<and> (\<forall>a. Call_PeerSyncer_Start a \<in> set new \<longrightarrow>
           (e1 = None \<or> e2 = None) \<and> a = AdvertiseAddress s
           \<and> last new = Call_PeerSyncer_Start a)
     \<and> (serve = None \<and> e1 = None \<longrightarrow>
           new = [Call_Cache_Start, Call_Metrics_Start, Call_HealthCheck,
                  Call_PeerSyncer_Start (AdvertiseAddress s)]
         \<and> (r = None \<longleftrightarrow> fst (PeerSyncer_Start d (AdvertiseAddress s) n1) = None))
     \<and> (serve = None \<and> e1 \<noteq> None \<and> e2 = None \<longrightarrow>
           new = [Call_Cache_Start, Call_Metrics_Start, Call_HealthCheck, Call_Sleep,
                  Call_HealthCheck, Call_PeerSyncer_Start (AdvertiseAddress s)]
         \<and> (r = None \<longleftrightarrow> fst (PeerSyncer_Start d (AdvertiseAddress s) n2) = None))
     \<and> (e1 \<noteq> None \<and> e2 \<noteq> None \<longrightarrow>
           r \<noteq> None
         \<and> new = [Call_Cache_Start, Call_Metrics_Start, Call_HealthCheck, Call_Sleep,
                  Call_HealthCheck, Call_Sleep])"
proof -
  note eq = Start_eq[OF assms(1-4)]
  consider (first) "e1 = None" | (second) "e1 \<noteq> None" "e2 = None"
    | (none) "e1 \<noteq> None" "e2 \<noteq> None"
    by blast
  then show ?thesis
  proof cases
    case first
    show ?thesis
    proof (cases serve)
      case None
      show ?thesis
        by (rule exI[of _ "fst (Start d serve s)"], rule exI[of _ "snd (Start d serve s)"],
            rule exI[of _ "[Call_Cache_Start, Call_Metrics_Start, Call_HealthCheck,
                  Call_PeerSyncer_Start (AdvertiseAddress s)]"])
           (simp add: eq first None Let_def)
    next
      case (Some e)
      with assms(5) obtain err where e: "e = Some err" by (cases e) auto
      show ?thesis
        by (rule exI[of _ "fst (Start d serve s)"], rule exI[of _ "snd (Start d serve s)"],
            rule exI[of _ "[Call_Cache_Start, Call_Metrics_Start, Call_HealthCheck]"])
           (simp add: eq first Some e Let_def)
    qed
  next
    case second
    show ?thesis
    proof (cases serve)
      case None
      show ?thesis
        by (rule exI[of _ "fst (Start d serve s)"], rule exI[of _ "snd (Start d serve s)"],
            rule exI[of _ "[Call_Cache_Start, Call_Metrics_Start, Call_HealthCheck, Call_Sleep,
                  Call_HealthCheck, Call_PeerSyncer_Start (AdvertiseAddress s)]"])
           (simp add: eq second None Let_def)
    next
      case (Some e)
      with assms(5) obtain err where e: "e = Some err" by (cases e) auto
      show ?thesis
        by (rule exI[of _ "fst (Start d serve s)"], rule exI[of _ "snd (Start d serve s)"],
            rule exI[of _ "[Call_Cache_Start, Call_Metrics_Start, Call_HealthCheck, Call_Sleep,
                  Call_HealthCheck]"])
           (simp add: eq second Some e Let_def)
    qed
  next
    case none
    from none(2) obtain err2 where e2: "e2 = Some err2" by auto
    have r: "(case serve of Some e \<Rightarrow> e | None \<Rightarrow> if e1 = None then None else e2) \<noteq> None"
      using assms(5) none by (cases serve) auto
    then obtain err where err:
      "(case serve of Some e \<Rightarrow> e | None \<Rightarrow> if e1 = None then None else e2) = Some err"
      by auto
    show ?thesis
      by (rule exI[of _ "fst (Start d serve s)"], rule exI[of _ "snd (Start d serve s)"],
          rule exI[of _ "[Call_Cache_Start, Call_Metrics_Start, Call_HealthCheck, Call_Sleep,
                  Call_HealthCheck, Call_Sleep]"])
         (simp add: eq none err Let_def)
  qed
qed

lemma ex_Start_facts:
  "Cache_Start ex_deps (Cache ex_instance) = (None, 0)"
  "Metrics_Start ex_deps (net ex_instance) = (None, 0)"
  "HealthCheck_probe ex_deps 0 = (Some ''connection refused'', 1)"
  "HealthCheck_probe ex_deps 1 = (None, 2)"
  "fst (PeerSyncer_Start ex_deps (AdvertiseAddress ex_instance) 2) = None"
  "AdvertiseAddress ex_instance = ''self:81''" "calls ex_instance = []"
  by (simp_all add: ex_deps_def ex_instance_def)

lemma Start_unless_stopped_example:
  "Cache_Start ex_deps (Cache ex_instance) = (None, 0)
   \<and> Metrics_Start ex_deps (net ex_instance) = (None, 0)
   \<and> HealthCheck_probe ex_deps 0 = (Some ''connection refused'', 1)
   \<and> HealthCheck_probe ex_deps 1 = (None, 2)
   \<and> (None :: error option option) \<noteq> Some None
   \<and> (\<exists>s'. Start ex_deps None ex_instance = (None, s')
         \<and> calls s' = [Call_Cache_Start, Call_Metrics_Start, Call_HealthCheck, Call_Sleep,
                       Call_HealthCheck, Call_PeerSyncer_Start ''self:81''])"
proof -
  have n: "(None :: error option option) \<noteq> Some None" by simp
  from Start_unless_stopped
         [OF ex_Start_facts(1) ex_Start_facts(2) ex_Start_facts(3) ex_Start_facts(4) n]
  obtain r s' new where "Start ex_deps None ex_instance = (r, s')"
    and "calls s' = calls ex_instance @ new"
    and "new = [Call_Cache_Start, Call_Metrics_Start, Call_HealthCheck, Call_Sleep,
                Call_HealthCheck, Call_PeerSyncer_Start (AdvertiseAddress ex_instance)]"
    and "r = None \<longleftrightarrow> fst (PeerSyncer_Start ex_deps (AdvertiseAddress ex_instance) 2) = None"
    by auto
  then have "Start ex_deps None ex_instance = (None, s')
         \<and> calls s' = [Call_Cache_Start, Call_Metrics_Start, Call_HealthCheck, Call_Sleep,
                       Call_HealthCheck, Call_PeerSyncer_Start ''self:81'']"
    by (simp add: ex_Start_facts ex_deps_def)
  then show ?thesis using ex_Start_facts n by blast
qed

text \<open>
  The same instance when no probe ever succeeds and the server keeps serving: Start fails
  after two probes and does not register.
\<close>

lemma Start_example_unreachable:
  "(case Start ex_deps_unreachable None ex_instance of (r, s') \<Rightarrow> (r, calls s'))
   = (Some (Wrap ''connection refused'' ''while waiting for server to pass health check''),
      [Call_Cache_Start, Call_Metrics_Start, Call_HealthCheck, Call_Sleep, Call_HealthCheck,
       Call_Sleep])"
  by (simp add: Start_def retry_2 probe_eq log_call_def ex_deps_unreachable_def ex_deps_def
      ex_instance_def Let_def)

text \<open>
  C2.  The claim does not hold of Start in the run where Serve returns nil before retry has
  finished, which it does when the server is stopped while Start waits.  Start then takes
  that nil from the channel for the success of the probe, and goes on to register.  Here no
  probe reaches the listener: both attempts fail, and still the last call of Start is
  PeerSyncer.Start with the advertise address, and Start returns no error.
\<close>

theorem Start_registers_when_stopped:
  "HealthCheck_probe ex_deps_unreachable 0 = (Some ''connection refused'', 1)
   \<and> HealthCheck_probe ex_deps_unreachable 1 = (Some ''connection refused'', 2)
   \<and> (case Start ex_deps_unreachable (Some None) ex_instance of (r, s') \<Rightarrow> (r, calls s'))
       = (None,
          [Call_Cache_Start, Call_Metrics_Start, Call_HealthCheck, Call_Sleep, Call_HealthCheck,
           Call_Sleep, Call_PeerSyncer_Start ''self:81''])"
  by (simp add: Start_def retry_2 probe_eq log_call_def ex_deps_unreachable_def ex_deps_def
      ex_instance_def Let_def)

end
